theory Spec2Isabelle
  imports Complex_Main "HOL-Library.Log_Nat"
begin

section \<open>JavaScript values used by the paging code\<close>

text \<open>
  The management client converts continuation tokens with the built-in \<open>Number\<close> and tests
  numbers and strings for truthiness. A JavaScript number is a binary64 value: NaN, an
  infinity, or a finite rational. Negative zero is identified with zero: the code only
  compares numbers with \<open>>=\<close>, tests their truthiness and prints them, and both zeros
  behave alike under all three.
\<close>

datatype jsnum = NaN | Num rat | PosInf | NegInf

text \<open>
  A value of type \<open>string | undefined\<close>; \<open>URLSearchParams.get\<close> adds \<open>null\<close> for a
  missing parameter. Strings are sequences of code units below 256.
\<close>

datatype token = Undefined | Null | Str string

subsection \<open>Rounding a positive fraction to binary64\<close>

text \<open>\<open>floor_log2 n d\<close> is the integer part of the binary logarithm of \<open>n / d\<close>, for positive \<open>n\<close> and \<open>d\<close>.\<close>

definition floor_log2 :: "nat \<Rightarrow> nat \<Rightarrow> int" where
  "floor_log2 n d =
     (let k = int (floorlog 2 n) - int (floorlog 2 d)
      in if (if 0 \<le> k then 2 ^ nat k * d \<le> n else d \<le> n * 2 ^ nat (- k)) then k else k - 1)"

definition round_half_even :: "nat \<Rightarrow> nat \<Rightarrow> nat" where
  "round_half_even n d =
     (let f = n div d; r = n mod d
      in if 2 * r < d then f else if d < 2 * r then f + 1 else if even f then f else f + 1)"

text \<open>
  The binary64 value nearest to \<open>n / d\<close> (ties to even), with 53 significant bits and
  exponents from -1022, subnormals included; \<open>None\<close> when the result overflows to infinity.
\<close>

definition binary64 :: "nat \<Rightarrow> nat \<Rightarrow> rat option" where
  "binary64 n d =
     (if n = 0 then Some 0
      else let e = max (floor_log2 n d) (- 1022);
               s = e - 52;
               m = (if s \<le> 0 then round_half_even (n * 2 ^ nat (- s)) d
                    else round_half_even n (d * 2 ^ nat s))
           in if 0 \<le> s \<and> 2 ^ 1024 \<le> m * 2 ^ nat s then None
              else Some (if 0 \<le> s then of_nat (m * 2 ^ nat s)
                         else of_nat m / of_nat (2 ^ nat (- s))))"

definition finite_number :: "bool \<Rightarrow> nat \<Rightarrow> nat \<Rightarrow> jsnum" where
  "finite_number neg n d =
     (case binary64 n d of
        None \<Rightarrow> if neg then NegInf else PosInf
      | Some r \<Rightarrow> Num (if neg then - r else r))"

subsection \<open>String to number conversion\<close>

text \<open>
  \<open>StringToNumber\<close> follows the grammar of ECMAScript's StringNumericLiteral: optional
  white space around an optionally signed decimal literal (with fraction and exponent),
  \<open>Infinity\<close>, or an unsigned hexadecimal, octal or binary integer literal; the empty
  literal is 0 and anything else is NaN.
\<close>

definition isStrWhiteSpaceChar :: "char \<Rightarrow> bool" where
  "isStrWhiteSpaceChar c \<longleftrightarrow>
     c \<in> set [CHR 0x09, CHR 0x0A, CHR 0x0B, CHR 0x0C, CHR 0x0D, CHR 0x20, CHR 0xA0]"

definition trimString :: "string \<Rightarrow> string" where
  "trimString s = rev (dropWhile isStrWhiteSpaceChar (rev (dropWhile isStrWhiteSpaceChar s)))"

definition digitValue :: "char \<Rightarrow> nat option" where
  "digitValue c =
     (let n = (of_char c :: nat)
      in if 48 \<le> n \<and> n \<le> 57 then Some (n - 48)
         else if 97 \<le> n \<and> n \<le> 122 then Some (n - 87)
         else if 65 \<le> n \<and> n \<le> 90 then Some (n - 55)
         else None)"

definition isRadixDigit :: "nat \<Rightarrow> char \<Rightarrow> bool" where
  "isRadixDigit R c = (case digitValue c of None \<Rightarrow> False | Some v \<Rightarrow> v < R)"

fun mathInt :: "nat \<Rightarrow> nat \<Rightarrow> string \<Rightarrow> nat" where
  "mathInt R acc [] = acc"
| "mathInt R acc (c # cs) =
     mathInt R (acc * R + (case digitValue c of None \<Rightarrow> 0 | Some v \<Rightarrow> v)) cs"

definition SignedInteger :: "string \<Rightarrow> int option" where
  "SignedInteger r =
     (let neg = (case r of [] \<Rightarrow> False | c # _ \<Rightarrow> c = CHR ''-'');
          ds = (case r of [] \<Rightarrow> [] | c # cs \<Rightarrow> if c = CHR ''+'' \<or> c = CHR ''-'' then cs else r)
      in if ds \<noteq> [] \<and> list_all (isRadixDigit 10) ds
         then Some (if neg then - int (mathInt 10 0 ds) else int (mathInt 10 0 ds))
         else None)"

definition ExponentPart :: "string \<Rightarrow> int option" where
  "ExponentPart r =
     (case r of
        [] \<Rightarrow> Some 0
      | c # r' \<Rightarrow> if c = CHR ''e'' \<or> c = CHR ''E'' then SignedInteger r' else None)"

text \<open>The mathematical value of an unsigned decimal literal, as a fraction; \<open>None\<close> when the text is no such literal.\<close>

definition StrUnsignedDecimalLiteral :: "string \<Rightarrow> (nat \<times> nat) option" where
  "StrUnsignedDecimalLiteral u =
     (let ip = takeWhile (isRadixDigit 10) u;
          r1 = dropWhile (isRadixDigit 10) u;
          dot = (case r1 of [] \<Rightarrow> False | c # _ \<Rightarrow> c = CHR ''.'');
          fp = (if dot then takeWhile (isRadixDigit 10) (tl r1) else []);
          r2 = (if dot then dropWhile (isRadixDigit 10) (tl r1) else r1)
      in if ip = [] \<and> fp = [] then None
         else case ExponentPart r2 of
                None \<Rightarrow> None
              | Some e \<Rightarrow>
                  let m = mathInt 10 0 (ip @ fp); k = e - int (length fp)
                  in Some (if 0 \<le> k then (m * 10 ^ nat k, 1) else (m, 10 ^ nat (- k))))"

definition StrDecimalLiteral :: "string \<Rightarrow> jsnum" where
  "StrDecimalLiteral t =
     (let neg = (case t of [] \<Rightarrow> False | c # _ \<Rightarrow> c = CHR ''-'');
          u = (case t of [] \<Rightarrow> [] | c # cs \<Rightarrow> if c = CHR ''+'' \<or> c = CHR ''-'' then cs else t)
      in if u = ''Infinity'' then (if neg then NegInf else PosInf)
         else case StrUnsignedDecimalLiteral u of
                None \<Rightarrow> NaN
              | Some (n, d) \<Rightarrow> finite_number neg n d)"

definition NonDecimalRadix :: "string \<Rightarrow> nat option" where
  "NonDecimalRadix t =
     (case t of
        a # b # _ \<Rightarrow>
          if a \<noteq> CHR ''0'' then None
          else if b = CHR ''x'' \<or> b = CHR ''X'' then Some 16
          else if b = CHR ''o'' \<or> b = CHR ''O'' then Some 8
          else if b = CHR ''b'' \<or> b = CHR ''B'' then Some 2
          else None
      | _ \<Rightarrow> None)"

definition StringToNumber :: "string \<Rightarrow> jsnum" where
  "StringToNumber s =
     (let t = trimString s
      in if t = [] then Num 0
         else case NonDecimalRadix t of
                Some R \<Rightarrow>
                  (let ds = drop 2 t
                   in if ds \<noteq> [] \<and> list_all (isRadixDigit R) ds
                      then finite_number False (mathInt R 0 ds) 1 else NaN)
              | None \<Rightarrow> StrDecimalLiteral t)"

text \<open>\<open>Number(v)\<close> for a value that is a string, \<open>undefined\<close> or \<open>null\<close>.\<close>

fun Number :: "token \<Rightarrow> jsnum" where
  "Number Undefined = NaN"
| "Number Null = Num 0"
| "Number (Str s) = StringToNumber s"

text \<open>
  \<open>parseInt(s)\<close> without a radix: leading white space and a sign are skipped, a \<open>0x\<close>
  prefix selects radix 16, and the longest prefix of digits is converted; no digits give NaN.
\<close>

definition parseInt :: "string \<Rightarrow> jsnum" where
  "parseInt inputString =
     (let S = dropWhile isStrWhiteSpaceChar inputString;
          neg = (case S of [] \<Rightarrow> False | c # _ \<Rightarrow> c = CHR ''-'');
          S1 = (case S of [] \<Rightarrow> [] | c # cs \<Rightarrow> if c = CHR ''+'' \<or> c = CHR ''-'' then cs else S);
          hex = (case S1 of a # b # _ \<Rightarrow> a = CHR ''0'' \<and> (b = CHR ''x'' \<or> b = CHR ''X'') | _ \<Rightarrow> False);
          R = (if hex then 16 else 10);
          Z = takeWhile (isRadixDigit R) (if hex then drop 2 S1 else S1)
      in if Z = [] then NaN else finite_number neg (mathInt R 0 Z) 1)"

text \<open>Truthiness (\<open>if (v)\<close>) of a number and of a string-or-absent value, and \<open>x >= 0\<close>.\<close>

fun truthy_num :: "jsnum \<Rightarrow> bool" where
  "truthy_num NaN = False"
| "truthy_num (Num r) = (r \<noteq> 0)"
| "truthy_num PosInf = True"
| "truthy_num NegInf = True"

fun truthy :: "token \<Rightarrow> bool" where
  "truthy Undefined = False"
| "truthy Null = False"
| "truthy (Str s) = (s \<noteq> [])"

fun ge_zero :: "jsnum \<Rightarrow> bool" where
  "ge_zero NaN = False"
| "ge_zero (Num r) = (0 \<le> r)"
| "ge_zero PosInf = True"
| "ge_zero NegInf = False"

section \<open>Listing entities page by page\<close>

subsection \<open>Requests, responses and the collaborators of the client\<close>

datatype error =
    Error string
  | RestError string string nat

text \<open>\<open>RestError message code statusCode\<close>; the code of a response that cannot be parsed:\<close>

definition PARSE_ERROR :: string where
  "PARSE_ERROR = ''PARSE_ERROR''"

text \<open>
  The URL of a list request, as \<open>getUrl\<close> builds it: the resource name and the query
  parameters \<open>$skip\<close> and \<open>$top\<close>. A parameter holds the number whose \<open>toString()\<close> the
  code sends; the fixed api-version parameter is left out.
\<close>

record request =
  resource :: string
  skip_query :: "jsnum option"
  top_query :: "jsnum option"

text \<open>
  The parsed body of a response: absent, an array of raw records, or any other object. An
  array and an object carry their \<open>nextLink\<close> property (\<open>None\<close> for \<open>undefined\<close>).
\<close>

datatype 'raw body =
    NoBody
  | ObjectBody "string option"
  | ArrayBody "'raw list" "string option"

record 'raw HttpOperationResponse =
  status :: nat
  parsedBody :: "'raw body"

text \<open>
  What the client consumes from outside: the transport (\<open>executeAtomXmlOperation\<close>, which
  returns a response or throws), the URL parser (\<open>parseURL\<close>, which throws on a malformed
  URL and otherwise gives the \<open>searchParams.get\<close> lookup), and the decoder of one raw
  record (\<open>buildQueue\<close>), which returns an entity, returns \<open>undefined\<close> or throws.
\<close>

record ('raw, 'a) collaborators =
  executeAtomXmlOperation :: "request \<Rightarrow> error + 'raw HttpOperationResponse"
  parseURL :: "string \<Rightarrow> string + (string \<Rightarrow> string option)"
  buildQueue :: "'raw \<Rightarrow> error + 'a option"

record ListRequestOptions =
  skip :: "jsnum option"
  maxCount :: "jsnum option"

text \<open>The options of \<open>listQueuesPage\<close>: only \<open>maxPageSize\<close> bears on the listing.\<close>

record PageOptions =
  maxPageSize :: "jsnum option"

record PageSettings =
  ps_continuationToken :: token
  ps_maxPageSize :: "jsnum option"

record ('raw, 'a) EntitiesResponse =
  items :: "'a list"
  continuationToken :: token
  response :: "'raw HttpOperationResponse"

subsection \<open>One list request\<close>

text \<open>\<open>if (options.skip) queryParams["$skip"] = options.skip.toString()\<close>, and likewise \<open>$top\<close>.\<close>

definition queryParam :: "jsnum option \<Rightarrow> jsnum option" where
  "queryParam v = (case v of None \<Rightarrow> None | Some n \<Rightarrow> if truthy_num n then Some n else None)"

definition getUrl :: "string \<Rightarrow> jsnum option \<Rightarrow> jsnum option \<Rightarrow> request" where
  "getUrl path skipParam topParam =
     \<lparr>resource = path, skip_query = skipParam, top_query = topParam\<rparr>"

text \<open>\<open>listResources\<close> returns the request it sent together with the outcome of the transport.\<close>

definition listResources ::
  "('raw, 'a) collaborators \<Rightarrow> string \<Rightarrow> ListRequestOptions
     \<Rightarrow> request \<times> (error + 'raw HttpOperationResponse)" where
  "listResources this name options =
     (let webResource = getUrl name (queryParam (skip options)) (queryParam (maxCount options))
      in (webResource, executeAtomXmlOperation this webResource))"

text \<open>Modelled from the spec: the constant \<open>Constants.XML_METADATA_MARKER\<close> (util/constants is
  not among the sources); the wire contract names the parameters \<open>$skip\<close> and \<open>$top\<close>.\<close>

definition XML_METADATA_MARKER :: string where
  "XML_METADATA_MARKER = ''$''"

definition quote :: string where
  "quote = [CHR 0x27]"

definition getMarkerFromNextLinkUrl ::
  "('raw, 'a) collaborators \<Rightarrow> string option \<Rightarrow> error + token" where
  "getMarkerFromNextLinkUrl this url =
     (case url of
        None \<Rightarrow> Inr Undefined
      | Some u \<Rightarrow>
          if u = [] then Inr Undefined
          else (case parseURL this u of
                  Inl e \<Rightarrow>
                    Inl (Error (concat [''Unable to parse the '', quote, XML_METADATA_MARKER, ''skip'',
                           quote, '' from the next-link in the response '', e]))
                | Inr searchParams \<Rightarrow>
                    Inr (case searchParams (XML_METADATA_MARKER @ ''skip'') of
                           None \<Rightarrow> Null
                         | Some v \<Rightarrow> Str v)))"

text \<open>The loop over the raw array: a record whose decoder returns nothing is not pushed.\<close>

fun pushQueues :: "('raw \<Rightarrow> error + 'a option) \<Rightarrow> 'raw list \<Rightarrow> 'a list \<Rightarrow> error + 'a list" where
  "pushQueues decode [] queues = Inr queues"
| "pushQueues decode (raw # rawQueueArray) queues =
     (case decode raw of
        Inl e \<Rightarrow> Inl e
      | Inr None \<Rightarrow> pushQueues decode rawQueueArray queues
      | Inr (Some queue) \<Rightarrow> pushQueues decode rawQueueArray (queues @ [queue]))"

definition parse_failure :: "'raw HttpOperationResponse \<Rightarrow> error" where
  "parse_failure resp =
     RestError ''Error occurred while parsing the response body - cannot form a list of queues using the response from the service.''
       PARSE_ERROR (status resp)"

text \<open>
  The body of the \<open>try\<close> block of \<open>buildListQueuesResponse\<close>: the next link is read first
  (which throws on an absent body), then the body must be an array.
\<close>

definition buildListQueuesResponse_try ::
  "('raw, 'a) collaborators \<Rightarrow> 'raw HttpOperationResponse \<Rightarrow> error + ('raw, 'a) EntitiesResponse" where
  "buildListQueuesResponse_try this resp =
     (case parsedBody resp of
        NoBody \<Rightarrow> Inl (Error ''TypeError: cannot read property nextLink'')
      | ObjectBody nextLink \<Rightarrow>
          (case getMarkerFromNextLinkUrl this nextLink of
             Inl e \<Rightarrow> Inl e
           | Inr nextMarker \<Rightarrow> Inl (Error ''TypeError: parsedBody was expected to be of type Array''))
      | ArrayBody rawQueueArray nextLink \<Rightarrow>
          (case getMarkerFromNextLinkUrl this nextLink of
             Inl e \<Rightarrow> Inl e
           | Inr nextMarker \<Rightarrow>
               (case pushQueues (buildQueue this) rawQueueArray [] of
                  Inl e \<Rightarrow> Inl e
                | Inr queues \<Rightarrow>
                    Inr \<lparr>items = queues, continuationToken = nextMarker, response = resp\<rparr>)))"

definition buildListQueuesResponse ::
  "('raw, 'a) collaborators \<Rightarrow> 'raw HttpOperationResponse \<Rightarrow> error + ('raw, 'a) EntitiesResponse" where
  "buildListQueuesResponse this resp =
     (case buildListQueuesResponse_try this resp of
        Inl err \<Rightarrow> Inl (parse_failure resp)
      | Inr listQueuesResponse \<Rightarrow> Inr listQueuesResponse)"

definition listQueues ::
  "('raw, 'a) collaborators \<Rightarrow> ListRequestOptions
     \<Rightarrow> request \<times> (error + ('raw, 'a) EntitiesResponse)" where
  "listQueues this options =
     (case listResources this ''$Resources/Queues'' options of
        (sent, Inl e) \<Rightarrow> (sent, Inl e)
      | (sent, Inr resp) \<Rightarrow> (sent, buildListQueuesResponse this resp))"

subsection \<open>The paging loop\<close>

text \<open>
  A generator consumed to its end: what it yielded, the error it threw (if any) and the
  requests it issued, in order.
\<close>

record 'y scan =
  yielded :: "'y list"
  thrown :: "error option"
  requests :: "request list"

definition yield_first :: "'y \<Rightarrow> request \<Rightarrow> 'y scan \<Rightarrow> 'y scan" where
  "yield_first y sent rest =
     \<lparr>yielded = y # yielded rest, thrown = thrown rest, requests = sent # requests rest\<rparr>"

text \<open>The argument \<open>{skip: Number(marker), maxCount: options.maxPageSize, ...options}\<close> of \<open>listQueues\<close>.\<close>

definition pageRequestOptions :: "token \<Rightarrow> PageOptions \<Rightarrow> ListRequestOptions" where
  "pageRequestOptions marker options =
     \<lparr>skip = Some (Number marker), maxCount = maxPageSize options\<rparr>"

text \<open>
  \<open>listQueuesPage\<close>: the \<open>do ... while (marker)\<close> loop, run until the generator is done.
  The loop need not end, so the result is optional: \<open>None\<close> is a scan that never finishes.
\<close>

partial_function (option) listQueuesPage ::
  "('raw, 'a) collaborators \<Rightarrow> token \<Rightarrow> PageOptions
     \<Rightarrow> ('raw, 'a) EntitiesResponse scan option" where
  "listQueuesPage this marker options =
     (case listQueues this (pageRequestOptions marker options) of
        (sent, Inl e) \<Rightarrow> Some \<lparr>yielded = [], thrown = Some e, requests = [sent]\<rparr>
      | (sent, Inr listResponse) \<Rightarrow>
          if truthy (continuationToken listResponse)
          then Option.bind (listQueuesPage this (continuationToken listResponse) options)
                 (\<lambda>rest. Some (yield_first listResponse sent rest))
          else Some \<lparr>yielded = [listResponse], thrown = None, requests = [sent]\<rparr>)"

text \<open>
  \<open>listQueuesAll\<close>: \<open>yield*\<close> of every page of a scan that starts with no marker. Its
  options are operation options (abort signal, tracing), which carry no page size.
\<close>

definition listQueuesAll :: "('raw, 'a) collaborators \<Rightarrow> 'a scan option" where
  "listQueuesAll this =
     map_option
       (\<lambda>pages. \<lparr>yielded = concat (map items (yielded pages)), thrown = thrown pages,
                  requests = requests pages\<rparr>)
       (listQueuesPage this Undefined \<lparr>maxPageSize = None\<rparr>)"

subsection \<open>Validation of a continuation token and \<open>byPage\<close>\<close>

fun token_text :: "token \<Rightarrow> string" where
  "token_text Undefined = ''undefined''"
| "token_text Null = ''null''"
| "token_text (Str s) = s"

fun is_string :: "token \<Rightarrow> bool" where
  "is_string (Str s) = True"
| "is_string _ = False"

definition throwIfInvalidContinuationToken :: "token \<Rightarrow> error + unit" where
  "throwIfInvalidContinuationToken tok =
     (if \<not> (tok = Undefined \<or> (is_string tok \<and> ge_zero (Number tok)))
      then Inl (Error (''Invalid continuationToken '' @ token_text tok @ '' provided''))
      else Inr ())"

text \<open>
  Calling a generator function runs none of its body: \<open>byPage\<close> validates the token and
  returns a generator that has issued no request yet. The generator is the pair of
  arguments it was created with; consuming it is \<open>run_generator\<close>.
\<close>

datatype page_generator = ListQueuesPage token PageOptions

definition byPage :: "PageSettings \<Rightarrow> error + page_generator" where
  "byPage settings =
     (case throwIfInvalidContinuationToken (ps_continuationToken settings) of
        Inl e \<Rightarrow> Inl e
      | Inr _ \<Rightarrow>
          Inr (ListQueuesPage (ps_continuationToken settings)
                 \<lparr>maxPageSize = ps_maxPageSize settings\<rparr>))"

fun run_generator ::
  "('raw, 'a) collaborators \<Rightarrow> page_generator \<Rightarrow> ('raw, 'a) EntitiesResponse scan option" where
  "run_generator this (ListQueuesPage marker options) = listQueuesPage this marker options"

subsection \<open>Iterators, one step at a time\<close>

text \<open>
  \<open>listQueuesPage\<close> and \<open>listQueuesAll\<close> above give what a generator produces when it is
  consumed alone and to its end. Callers hold several iterators and advance them in any
  order, so the iterator of \<open>listQueuesAll\<close> is also given as a suspended computation. Its
  frame holds the locals of the two nested generators: the marker of \<open>listQueuesPage\<close> and
  the rest of the segment that \<open>yield*\<close> is delegating to. A step runs the generator to its
  next yield or await: it fetches a page (the first one unconditionally, a later one when
  the marker is truthy), yields the next item of the segment, returns, or throws.
\<close>

datatype 'a frame = Fetching token | Yielding "'a list" token | Done

datatype 'a event = Fetch request | Yield 'a | Fail request error | Return

definition fetch_step :: "('raw, 'a) collaborators \<Rightarrow> token \<Rightarrow> 'a event \<times> 'a frame" where
  "fetch_step this marker =
     (case listQueues this (pageRequestOptions marker \<lparr>maxPageSize = None\<rparr>) of
        (sent, Inl e) \<Rightarrow> (Fail sent e, Done)
      | (sent, Inr segment) \<Rightarrow>
          (Fetch sent, Yielding (items segment) (continuationToken segment)))"

fun step :: "('raw, 'a) collaborators \<Rightarrow> 'a frame \<Rightarrow> 'a event \<times> 'a frame" where
  "step this (Fetching marker) = fetch_step this marker"
| "step this (Yielding (x # xs) marker) = (Yield x, Yielding xs marker)"
| "step this (Yielding [] marker) =
     (if truthy marker then fetch_step this marker else (Return, Done))"
| "step this Done = (Return, Done)"

text \<open>
  The state of a program that holds iterators: the frames of the iterators it has created,
  by handle, the next free handle, and the requests sent so far through the one client.
\<close>

record 'a world =
  frames :: "nat \<Rightarrow> 'a frame option"
  next_id :: nat
  sent_log :: "request list"


fun requests_of :: "'a event \<Rightarrow> request list" where
  "requests_of (Fetch sent) = [sent]"
| "requests_of (Fail sent e) = [sent]"
| "requests_of _ = []"

text \<open>Advancing the iterator with handle \<open>i\<close> by one step; a handle without an iterator does nothing.\<close>

definition advance ::
  "('raw, 'a) collaborators \<Rightarrow> nat \<Rightarrow> 'a world \<Rightarrow> 'a event option \<times> 'a world" where
  "advance this i w =
     (case frames w i of
        None \<Rightarrow> (None, w)
      | Some f \<Rightarrow>
          (case step this f of
             (ev, f') \<Rightarrow>
               (Some ev,
                w\<lparr>frames := (frames w)(i \<mapsto> f'), sent_log := sent_log w @ requests_of ev\<rparr>)))"


text \<open>One iterator advanced \<open>n\<close> times on its own.\<close>

fun run :: "('raw, 'a) collaborators \<Rightarrow> nat \<Rightarrow> 'a frame \<Rightarrow> 'a event list \<times> 'a frame" where
  "run this 0 f = ([], f)"
| "run this (Suc n) f =
     (case step this f of
        (ev, f') \<Rightarrow> (case run this n f' of (evs, f'') \<Rightarrow> (ev # evs, f'')))"




subsection \<open>Notions of the specification\<close>

text \<open>A non-negative integer string: one or more decimal digits.\<close>

definition nonNegativeIntegerString :: "string \<Rightarrow> bool" where
  "nonNegativeIntegerString s \<longleftrightarrow> s \<noteq> [] \<and> list_all (isRadixDigit 10) s"

text \<open>The skip the specification gives for a marker: \<open>parseInt(marker ?? "0")\<close>.\<close>

definition spec_skip :: "token \<Rightarrow> jsnum" where
  "spec_skip marker = parseInt (case marker of Str m \<Rightarrow> m | _ \<Rightarrow> ''0'')"

fun negative :: "jsnum \<Rightarrow> bool" where
  "negative NaN = False"
| "negative (Num r) = (r < 0)"
| "negative PosInf = False"
| "negative NegInf = True"

definition invalid_token_error :: "string \<Rightarrow> error" where
  "invalid_token_error t = Error (''Invalid continuationToken '' @ t @ '' provided'')"

text \<open>
  A caller that asks for pages and iterates them to the end: when \<open>byPage\<close> throws, nothing
  was requested.
\<close>

definition iterate_byPage ::
  "('raw, 'a) collaborators \<Rightarrow> PageSettings \<Rightarrow> ('raw, 'a) EntitiesResponse scan option" where
  "iterate_byPage this settings =
     (case byPage settings of
        Inl e \<Rightarrow> Some \<lparr>yielded = [], thrown = Some e, requests = []\<rparr>
      | Inr generator \<Rightarrow> run_generator this generator)"

text \<open>The entities of the raw records that decode, in order.\<close>

definition decoded :: "('raw \<Rightarrow> error + 'a option) \<Rightarrow> 'raw list \<Rightarrow> 'a list" where
  "decoded decode raws =
     concat (map (\<lambda>raw. case decode raw of Inr (Some q) \<Rightarrow> [q] | _ \<Rightarrow> []) raws)"

text \<open>\<open>ceil_div N P\<close> is the ceiling of \<open>N / P\<close> for a positive \<open>P\<close>.\<close>

definition ceil_div :: "nat \<Rightarrow> nat \<Rightarrow> nat" where
  "ceil_div N P = (N + P - 1) div P"

text \<open>
  A collection served with page size \<open>P\<close>: the request for offset \<open>k * P\<close> (no \<open>$skip\<close> for
  offset 0) is answered with the records from that offset, at most \<open>P\<close> of them, and with a
  next link whose skip parameter converts to the next offset exactly when records remain
  beyond the page.
\<close>

definition pageRequest :: "jsnum option \<Rightarrow> nat \<Rightarrow> request" where
  "pageRequest maxc offset =
     \<lparr>resource = ''$Resources/Queues'',
      skip_query = (if offset = 0 then None else Some (Num (of_nat offset))),
      top_query = queryParam maxc\<rparr>"

definition serves_page ::
  "('raw, 'a) collaborators \<Rightarrow> 'raw list \<Rightarrow> nat \<Rightarrow> jsnum option \<Rightarrow> nat \<Rightarrow> bool" where
  "serves_page this coll P maxc k =
     (case executeAtomXmlOperation this (pageRequest maxc (k * P)) of
        Inl e \<Rightarrow> False
      | Inr resp \<Rightarrow>
          (case parsedBody resp of
             ArrayBody raws nextLink \<Rightarrow>
               raws = take P (drop (k * P) coll) \<and>
               (case getMarkerFromNextLinkUrl this nextLink of
                  Inl e \<Rightarrow> False
                | Inr marker \<Rightarrow>
                    if (k + 1) * P < length coll
                    then truthy marker \<and> Number marker = Num (of_nat ((k + 1) * P))
                    else \<not> truthy marker)
           | _ \<Rightarrow> False))"

definition serves ::
  "('raw, 'a) collaborators \<Rightarrow> 'raw list \<Rightarrow> nat \<Rightarrow> jsnum option \<Rightarrow> bool" where
  "serves this coll P maxc \<longleftrightarrow>
     0 < P \<and> list_all (serves_page this coll P maxc) [0 ..< max 1 (ceil_div (length coll) P)]"


subsection \<open>Example services\<close>

text \<open>Raw records and entities are numbers here; the record 0 is the one that does not decode.\<close>

definition decode_nonzero :: "nat \<Rightarrow> error + nat option" where
  "decode_nonzero raw = (if raw = 0 then Inr None else Inr (Some raw))"

definition next_link :: "string \<Rightarrow> string" where
  "next_link n = ''https://ns.servicebus.windows.net/$Resources/Queues?api-version=2017-04&$skip='' @ n"

text \<open>The URL parser on the next links above: it finds the skip parameter of those it knows.\<close>

definition parse_next_link :: "string list \<Rightarrow> string \<Rightarrow> string + (string \<Rightarrow> string option)" where
  "parse_next_link known u =
     (case filter (\<lambda>n. u = next_link n) known of
        [] \<Rightarrow> Inl ''TypeError: Invalid URL''
      | n # _ \<Rightarrow> Inr (\<lambda>key. if key = ''$skip'' then Some n else None))"

definition unavailable :: "error" where
  "unavailable = RestError ''The request could not be served.'' ''ServiceError'' 503"

text \<open>A service that answers nothing.\<close>

definition offline :: "(nat, nat) collaborators" where
  "offline =
     \<lparr>executeAtomXmlOperation = (\<lambda>req. Inl unavailable),
      parseURL = parse_next_link [],
      buildQueue = decode_nonzero\<rparr>"


text \<open>An empty collection.\<close>

definition no_queues :: "(nat, nat) collaborators" where
  "no_queues =
     \<lparr>executeAtomXmlOperation = (\<lambda>req. Inr \<lparr>status = 200, parsedBody = ArrayBody [] None\<rparr>),
      parseURL = parse_next_link [],
      buildQueue = decode_nonzero\<rparr>"

text \<open>Three queues served two at a time.\<close>

definition three_queues :: "(nat, nat) collaborators" where
  "three_queues =
     \<lparr>executeAtomXmlOperation =
        (\<lambda>req. if skip_query req = None
               then Inr \<lparr>status = 200, parsedBody = ArrayBody [1, 2] (Some (next_link ''2''))\<rparr>
               else if skip_query req = Some (Num 2)
               then Inr \<lparr>status = 200, parsedBody = ArrayBody [3] None\<rparr>
               else Inl unavailable),
      parseURL = parse_next_link [''2''],
      buildQueue = decode_nonzero\<rparr>"

text \<open>The same service after the next link of its first page was dropped.\<close>

definition first_page_only :: "(nat, nat) collaborators" where
  "first_page_only =
     \<lparr>executeAtomXmlOperation =
        (\<lambda>req. if skip_query req = None
               then Inr \<lparr>status = 200, parsedBody = ArrayBody [1, 2] None\<rparr>
               else Inl unavailable),
      parseURL = parse_next_link [''2''],
      buildQueue = decode_nonzero\<rparr>"

text \<open>A service whose next links go backwards: skip 5 after the first page, skip 3 after the second.\<close>

definition regressing :: "(nat, nat) collaborators" where
  "regressing =
     \<lparr>executeAtomXmlOperation =
        (\<lambda>req. if skip_query req = None
               then Inr \<lparr>status = 200, parsedBody = ArrayBody [1] (Some (next_link ''5''))\<rparr>
               else if skip_query req = Some (Num 5)
               then Inr \<lparr>status = 200, parsedBody = ArrayBody [2] (Some (next_link ''3''))\<rparr>
               else if skip_query req = Some (Num 3)
               then Inr \<lparr>status = 200, parsedBody = ArrayBody [3] None\<rparr>
               else Inl unavailable),
      parseURL = parse_next_link [''5'', ''3''],
      buildQueue = decode_nonzero\<rparr>"



text \<open>Five queues served two at a time.\<close>

definition five_queues :: "(nat, nat) collaborators" where
  "five_queues =
     \<lparr>executeAtomXmlOperation =
        (\<lambda>req. if skip_query req = None
               then Inr \<lparr>status = 200, parsedBody = ArrayBody [1, 2] (Some (next_link ''2''))\<rparr>
               else if skip_query req = Some (Num 2)
               then Inr \<lparr>status = 200, parsedBody = ArrayBody [3, 4] (Some (next_link ''4''))\<rparr>
               else if skip_query req = Some (Num 4)
               then Inr \<lparr>status = 200, parsedBody = ArrayBody [5] None\<rparr>
               else Inl unavailable),
      parseURL = parse_next_link [''2'', ''4''],
      buildQueue = decode_nonzero\<rparr>"

section \<open>Settling a received message\<close>

text \<open>
  The disposition methods of a received message live in \<open>src/serviceBusMessage.ts\<close> and the
  receivers, which are not among the sources; the repository's test
  \<open>test/backupMessageSettlement.spec.ts\<close> is. The methods are therefore modelled from the
  specification (section 4.2), and the assertions of the test are translated from its source.
\<close>

subsection \<open>The settlement guard\<close>

text \<open>Modelled from the spec: the five disposition entry points of a received message
  (\<open>complete\<close>, \<open>abandon\<close>, \<open>defer\<close>, \<open>deadLetter\<close>, \<open>renewLock\<close>).\<close>

datatype verb = Complete | Abandon | Defer | DeadLetter | RenewLock

text \<open>Modelled from the spec: the string values of the enum \<open>DispositionType\<close>, which name the
  verb in the error message; the enum is declared in \<open>src/serviceBusMessage.ts\<close>, and the
  test reads its members \<open>complete\<close>, \<open>abandon\<close>, \<open>defer\<close> and \<open>deadletter\<close>.\<close>

fun DispositionType :: "verb \<Rightarrow> string" where
  "DispositionType Complete = ''complete''"
| "DispositionType Abandon = ''abandon''"
| "DispositionType Defer = ''defer''"
| "DispositionType DeadLetter = ''deadletter''"
| "DispositionType RenewLock = ''renewLock''"

text \<open>Modelled from the spec: the kinds of a rejected outcome (section 6).\<close>

datatype error_kind = LinkSevered | LockLost | AlreadySettled | Transport

text \<open>Modelled from the spec: a disposition call returns success or a rejected outcome that
  carries a kind and a message.\<close>

datatype 'a outcome = Resolved 'a | Rejected error_kind string

text \<open>Modelled from the spec: the states of a received message, \<open>Locked\<close> and the three
  states it can move to (settled, lock lost, link severed).\<close>

datatype lock_state = Locked | Settled | Lost | Severed

text \<open>Modelled from the spec: a received message with its delivery count, lock expiry and
  sequence number, whether its entity uses sessions, what the liveness oracle of its
  receive link answers (\<open>isLinkOpen\<close>), its state, and the calls forwarded to the transport
  for it.\<close>

record ReceivedMessage =
  deliveryCount :: nat
  lockedUntilUtc :: nat
  sequenceNumber :: nat
  usesSessions :: bool
  linkOpen :: bool
  state :: lock_state
  dispatched :: "verb list"

text \<open>Modelled from the spec: what the transport answers to a forwarded call: it confirms
  (with the lock expiry it grants) or fails with a kind and a message of its own.\<close>

datatype transport_reply = Confirmed nat | Refused error_kind string

text \<open>Modelled from the spec: the message of the link-severed error, \<open>Failed to <verb> the
  message as the AMQP link with which the message was received is no longer alive.\<close>\<close>

definition link_severed_message :: "verb \<Rightarrow> string" where
  "link_severed_message v =
     ''Failed to '' @ DispositionType v
       @ '' the message as the AMQP link with which the message was received is no longer alive.''"

text \<open>Modelled from the spec: the check made before a call is forwarded: the bound link
  reports itself closed, and the entity uses sessions or the verb is renew-lock.\<close>

definition guard_blocks :: "verb \<Rightarrow> ReceivedMessage \<Rightarrow> bool" where
  "guard_blocks v msg \<longleftrightarrow> \<not> linkOpen msg \<and> (usesSessions msg \<or> v = RenewLock)"

text \<open>Modelled from the spec: a forwarded call. Settling a message that is already settled
  raises the already-settled failure; otherwise the transport's answer decides: a
  confirmed disposition moves the message to \<open>Settled\<close>, a confirmed renewal sets the lock
  expiry, and a failure of the transport is passed on unchanged (a lost lock moves the
  message to its lock-lost state).\<close>

definition forward :: "verb \<Rightarrow> transport_reply \<Rightarrow> ReceivedMessage \<Rightarrow> unit outcome \<times> ReceivedMessage" where
  "forward v reply msg =
     (let sent = msg\<lparr>dispatched := dispatched msg @ [v]\<rparr>
      in if state msg = Settled \<and> v \<noteq> RenewLock
         then (Rejected AlreadySettled ''already settled'', sent)
         else case reply of
                Confirmed t \<Rightarrow>
                  (Resolved (),
                   if v = RenewLock then sent\<lparr>lockedUntilUtc := t\<rparr> else sent\<lparr>state := Settled\<rparr>)
              | Refused k m \<Rightarrow>
                  (Rejected k m, if k = LockLost then sent\<lparr>state := Lost\<rparr> else sent))"

text \<open>Modelled from the spec: the guarded disposition. When the guard blocks, the call fails
  at once with the link-severed error that names the verb, without a call to the
  transport (a session-bound message moves to its link-severed state); otherwise the call
  is forwarded.\<close>

definition settle :: "verb \<Rightarrow> transport_reply \<Rightarrow> ReceivedMessage \<Rightarrow> unit outcome \<times> ReceivedMessage" where
  "settle v reply msg =
     (if guard_blocks v msg
      then (Rejected LinkSevered (link_severed_message v),
            if usesSessions msg then msg\<lparr>state := Severed\<rparr> else msg)
      else forward v reply msg)"

text \<open>Modelled from the spec: the method \<open>complete\<close> of a received message.\<close>

definition complete :: "transport_reply \<Rightarrow> ReceivedMessage \<Rightarrow> unit outcome \<times> ReceivedMessage" where
  "complete = settle Complete"

text \<open>Modelled from the spec: the method \<open>abandon\<close> of a received message.\<close>

definition abandon :: "transport_reply \<Rightarrow> ReceivedMessage \<Rightarrow> unit outcome \<times> ReceivedMessage" where
  "abandon = settle Abandon"

text \<open>Modelled from the spec: the method \<open>defer\<close> of a received message (\<open>defer\<close> is a
  keyword of the proof language, hence the longer name).\<close>

definition defer_message :: "transport_reply \<Rightarrow> ReceivedMessage \<Rightarrow> unit outcome \<times> ReceivedMessage" where
  "defer_message = settle Defer"

text \<open>Modelled from the spec: the method \<open>deadLetter\<close> of a received message.\<close>

definition deadLetter :: "transport_reply \<Rightarrow> ReceivedMessage \<Rightarrow> unit outcome \<times> ReceivedMessage" where
  "deadLetter = settle DeadLetter"

text \<open>Modelled from the spec: the method \<open>renewLock\<close> of a received message, which resolves
  to the renewed lock expiry.\<close>

definition renewLock :: "transport_reply \<Rightarrow> ReceivedMessage \<Rightarrow> nat outcome \<times> ReceivedMessage" where
  "renewLock reply msg =
     (case settle RenewLock reply msg of
        (Resolved _, msg') \<Rightarrow> (Resolved (lockedUntilUtc msg'), msg')
      | (Rejected k m, msg') \<Rightarrow> (Rejected k m, msg'))"

subsection \<open>The assertions of the settlement test\<close>

text \<open>
  Each test receives a message, closes the receiver, calls one method of the message and
  asserts on what the call did. The functions below take the outcome of that call and
  give the verdict of the assertions; the steps that follow in the source (receiving
  again, peeking the entity) depend on the broker and are left out.
\<close>

datatype verdict = Passed | Failed string

text \<open>The message the tests expect of a rejected disposition.\<close>

definition expected_error_message :: "verb \<Rightarrow> string" where
  "expected_error_message v =
     ''Failed to '' @ DispositionType v
       @ '' the message as the AMQP link with which the message was received is no longer alive.''"

text \<open>
  The shape the four disposition tests share: the \<open>catch\<close> block compares the message of
  the error and sets \<open>errorWasThrown\<close>; then an error is required with sessions and
  forbidden without. The assertion messages differ from test to test.
\<close>

definition dispositionAssertions ::
  "string \<Rightarrow> string \<Rightarrow> string \<Rightarrow> bool \<Rightarrow> unit outcome \<Rightarrow> verdict" where
  "dispositionAssertions expected notThrown thrownMsg withSessions called =
     (case (case called of
              Resolved _ \<Rightarrow> Inr False
            | Rejected k m \<Rightarrow> if m = expected then Inr True else Inl ''Unexpected error thrown'') of
        Inl failure \<Rightarrow> Failed failure
      | Inr errorWasThrown \<Rightarrow>
          if withSessions
          then (if errorWasThrown = True then Passed else Failed notThrown)
          else (if errorWasThrown = False then Passed else Failed thrownMsg))"

definition testComplete :: "bool \<Rightarrow> unit outcome \<Rightarrow> verdict" where
  "testComplete =
     dispositionAssertions (expected_error_message Complete)
       ''Error was not thrown for messages with session-id''
       ''Error was thrown for sessions without session-id''"

definition testAbandon :: "bool \<Rightarrow> unit outcome \<Rightarrow> verdict" where
  "testAbandon =
     dispositionAssertions (expected_error_message Abandon)
       ''Error was not thrown for messages with session-id''
       ''Error was thrown for messages without session-id''"

definition testDefer :: "bool \<Rightarrow> unit outcome \<Rightarrow> verdict" where
  "testDefer =
     dispositionAssertions (expected_error_message Defer)
       ''Error was not thrown for messages with session-id''
       ''Error was thrown for sessions without session-id''"

definition testDeadletter :: "bool \<Rightarrow> unit outcome \<Rightarrow> verdict" where
  "testDeadletter =
     dispositionAssertions (expected_error_message DeadLetter)
       ''Error was not thrown for messages with session-id''
       ''Error was thrown for sessions without session-id''"

text \<open>
  \<open>testRenewLock\<close>: inside the \<open>try\<close> block the lock is renewed, the renewed expiry must be
  later than the one before (a failed assertion throws into the same \<open>catch\<close>), and the
  message is completed. The \<open>catch\<close> block accepts one message only.
\<close>

definition session_lock_message :: string where
  "session_lock_message =
     concat [''Invalid operation on the message, message lock doesn'', quote,
             ''t exist when dealing with sessions'']"

definition renewLockFinal :: "bool \<Rightarrow> bool \<Rightarrow> verdict" where
  "renewLockFinal withSessions errorWasThrown =
     (if withSessions
      then (if errorWasThrown = True then Passed
            else Failed ''Error was not thrown for messages with session-id'')
      else (if errorWasThrown = False then Passed
            else Failed ''Error was thrown for sessions without session-id''))"

definition renewLockCatch :: "bool \<Rightarrow> string \<Rightarrow> verdict" where
  "renewLockCatch withSessions message =
     (if message = session_lock_message then renewLockFinal withSessions True
      else Failed ''Unexpected error thrown'')"

definition testRenewLock :: "bool \<Rightarrow> nat \<Rightarrow> nat outcome \<Rightarrow> unit outcome \<Rightarrow> verdict" where
  "testRenewLock withSessions lockedUntilBeforeRenewlock renewed completed =
     (case renewed of
        Rejected k m \<Rightarrow> renewLockCatch withSessions m
      | Resolved lockedUntilAfterRenewlock \<Rightarrow>
          if \<not> lockedUntilBeforeRenewlock < lockedUntilAfterRenewlock
          then renewLockCatch withSessions
                 ''MessageLock did not get renewed!: expected false to equal true''
          else (case completed of
                  Rejected k m \<Rightarrow> renewLockCatch withSessions m
                | Resolved _ \<Rightarrow> renewLockFinal withSessions False))"

subsection \<open>Example messages\<close>

text \<open>A message of an entity without sessions, and one of an entity with sessions, each after its receiver was closed.\<close>

definition plain_message :: ReceivedMessage where
  "plain_message =
     \<lparr>deliveryCount = 0, lockedUntilUtc = 100, sequenceNumber = 1, usesSessions = False,
      linkOpen = False, state = Locked, dispatched = []\<rparr>"

definition session_message :: ReceivedMessage where
  "session_message =
     \<lparr>deliveryCount = 0, lockedUntilUtc = 100, sequenceNumber = 1, usesSessions = True,
      linkOpen = False, state = Locked, dispatched = []\<rparr>"

section \<open>Properties of the paged listing\<close>

subsection \<open>Number conversion of digit strings\<close>

lemmas js_eval = StringToNumber_def trimString_def isStrWhiteSpaceChar_def NonDecimalRadix_def
  StrDecimalLiteral_def StrUnsignedDecimalLiteral_def ExponentPart_def SignedInteger_def
  isRadixDigit_def digitValue_def finite_number_def parseInt_def binary64_def floor_log2_def
  round_half_even_def compute_floorlog Let_def

lemma decimal_digit_cases:
  "isRadixDigit 10 c \<Longrightarrow> 48 \<le> (of_char c :: nat) \<and> (of_char c :: nat) \<le> 57"
  by (auto simp: isRadixDigit_def digitValue_def Let_def split: if_splits)

lemma decimal_digit_not_space: "isRadixDigit 10 c \<Longrightarrow> \<not> isStrWhiteSpaceChar c"
  by (drule decimal_digit_cases) (auto simp: isStrWhiteSpaceChar_def)

lemma not_decimal_digit:
  "\<not> isRadixDigit 10 CHR ''+''" "\<not> isRadixDigit 10 CHR ''-''"
  "\<not> isRadixDigit 10 CHR ''x''" "\<not> isRadixDigit 10 CHR ''X''"
  "\<not> isRadixDigit 10 CHR ''o''" "\<not> isRadixDigit 10 CHR ''O''"
  "\<not> isRadixDigit 10 CHR ''b''" "\<not> isRadixDigit 10 CHR ''B''"
  "\<not> isRadixDigit 10 CHR ''I''"
  by (simp_all add: isRadixDigit_def digitValue_def)

lemma dropWhile_space_digits:
  assumes "nonNegativeIntegerString s"
  shows "dropWhile isStrWhiteSpaceChar s = s"
proof (cases s)
  case Nil
  then show ?thesis by simp
next
  case (Cons c cs)
  with assms have "\<not> isStrWhiteSpaceChar c"
    by (simp add: nonNegativeIntegerString_def decimal_digit_not_space)
  with Cons show ?thesis by simp
qed

lemma trimString_digits:
  assumes "nonNegativeIntegerString s"
  shows "trimString s = s"
proof -
  from assms have ne: "s \<noteq> []" and all: "list_all (isRadixDigit 10) s"
    by (simp_all add: nonNegativeIntegerString_def)
  have "\<not> isStrWhiteSpaceChar (last s)"
    using ne all by (auto simp: list_all_iff dest: decimal_digit_not_space)
  then have "\<not> isStrWhiteSpaceChar (hd (rev s))"
    using ne by (simp add: hd_rev)
  then have "dropWhile isStrWhiteSpaceChar (rev s) = rev s"
    using ne by (cases "rev s") auto
  then show ?thesis
    by (simp add: trimString_def dropWhile_space_digits [OF assms])
qed

lemma unsigned_digits:
  assumes "nonNegativeIntegerString s"
  shows "(case s of [] \<Rightarrow> [] | c # cs \<Rightarrow> if c = CHR ''+'' \<or> c = CHR ''-'' then cs else s) = s"
    and "(case s of [] \<Rightarrow> False | c # x \<Rightarrow> c = CHR ''-'') = False"
  using assms by (cases s; auto simp: nonNegativeIntegerString_def not_decimal_digit)+

lemma StringToNumber_digits:
  assumes "nonNegativeIntegerString s"
  shows "StringToNumber s = finite_number False (mathInt 10 0 s) 1"
proof -
  from assms have ne: "s \<noteq> []" and all: "list_all (isRadixDigit 10) s"
    by (simp_all add: nonNegativeIntegerString_def)
  have radix: "NonDecimalRadix s = None"
    using all by (auto simp: NonDecimalRadix_def not_decimal_digit split: list.splits)
  have tw: "takeWhile (isRadixDigit 10) s = s" and dw: "dropWhile (isRadixDigit 10) s = []"
    using all by (simp_all add: list_all_iff)
  have unsigned: "StrUnsignedDecimalLiteral s = Some (mathInt 10 0 s, 1)"
    using ne by (simp add: StrUnsignedDecimalLiteral_def tw dw ExponentPart_def)
  have inf: "s \<noteq> ''Infinity''"
    using all by (auto simp: not_decimal_digit)
  have "StrDecimalLiteral s = finite_number False (mathInt 10 0 s) 1"
    by (simp add: StrDecimalLiteral_def unsigned_digits [OF assms] inf unsigned)
  then show ?thesis
    using ne by (simp add: StringToNumber_def trimString_digits [OF assms] radix)
qed

lemma parseInt_digits:
  assumes "nonNegativeIntegerString s"
  shows "parseInt s = finite_number False (mathInt 10 0 s) 1"
proof -
  from assms have ne: "s \<noteq> []" and all: "list_all (isRadixDigit 10) s"
    by (simp_all add: nonNegativeIntegerString_def)
  have tw: "takeWhile (isRadixDigit 10) s = s"
    using all by (simp add: list_all_iff)
  have hex: "(case s of a # b # x \<Rightarrow> a = CHR ''0'' \<and> (b = CHR ''x'' \<or> b = CHR ''X'') | _ \<Rightarrow> False) = False"
    using all by (auto simp: not_decimal_digit split: list.splits)
  show ?thesis
    using ne
    by (simp add: parseInt_def dropWhile_space_digits [OF assms] unsigned_digits [OF assms] hex tw)
qed

lemma binary64_nonneg: "binary64 n d = Some r \<Longrightarrow> 0 \<le> r"
  by (auto simp: binary64_def Let_def split: if_splits)

lemma ge_zero_finite_number: "ge_zero (finite_number False n d)"
  by (auto simp: finite_number_def dest: binary64_nonneg split: option.splits)

lemma ge_zero_cases: "ge_zero x \<longleftrightarrow> x \<noteq> NaN \<and> \<not> negative x"
  by (cases x) auto

lemma Number_examples:
  "StringToNumber [] = Num 0" "StringToNumber ''1.5'' = Num (3 / 2)"
  "StringToNumber ''1e3'' = Num 1000" "StringToNumber ''0x1F'' = Num 31"
  "StringToNumber ''-1'' = Num (- 1)" "StringToNumber ''abc'' = NaN"
  "StringToNumber ''0'' = Num 0" "StringToNumber ''7'' = Num 7"
  "StringToNumber ''5'' = Num 5" "StringToNumber ''3'' = Num 3"
  "StringToNumber ''2'' = Num 2" "StringToNumber ''4'' = Num 4"
  by (simp_all add: js_eval)

subsection \<open>Validation\<close>

lemma byPage_accepts:
  "ge_zero (StringToNumber t) \<Longrightarrow>
   byPage \<lparr>ps_continuationToken = Str t, ps_maxPageSize = m\<rparr> =
     Inr (ListQueuesPage (Str t) \<lparr>maxPageSize = m\<rparr>)"
  by (simp add: byPage_def throwIfInvalidContinuationToken_def)

lemma byPage_rejects:
  "\<not> ge_zero (StringToNumber t) \<Longrightarrow>
   byPage \<lparr>ps_continuationToken = Str t, ps_maxPageSize = m\<rparr> = Inl (invalid_token_error t)"
  by (simp add: byPage_def throwIfInvalidContinuationToken_def invalid_token_error_def)

lemma byPage_undefined:
  "byPage \<lparr>ps_continuationToken = Undefined, ps_maxPageSize = m\<rparr> =
     Inr (ListQueuesPage Undefined \<lparr>maxPageSize = m\<rparr>)"
  by (simp add: byPage_def throwIfInvalidContinuationToken_def)

subsection \<open>Building a page\<close>

lemma pushQueues_decoded:
  "\<forall>raw \<in> set raws. \<forall>e. decode raw \<noteq> Inl e \<Longrightarrow>
   pushQueues decode raws queues = Inr (queues @ decoded decode raws)"
proof (induction raws arbitrary: queues)
  case Nil
  then show ?case by (simp add: decoded_def)
next
  case (Cons raw raws)
  then show ?case
    by (cases "decode raw") (auto simp: decoded_def split: option.splits)
qed

lemma decoded_all:
  "\<forall>raw \<in> set raws. decode raw = Inr (Some (f raw)) \<Longrightarrow> decoded decode raws = map f raws"
  by (induction raws) (simp_all add: decoded_def)

lemma buildListQueuesResponse_array:
  assumes "parsedBody resp = ArrayBody raws nextLink"
    and "getMarkerFromNextLinkUrl this nextLink = Inr marker"
    and "\<forall>raw \<in> set raws. \<forall>e. buildQueue this raw \<noteq> Inl e"
  shows "buildListQueuesResponse this resp =
           Inr \<lparr>items = decoded (buildQueue this) raws, continuationToken = marker, response = resp\<rparr>"
  using assms
  by (simp add: buildListQueuesResponse_def buildListQueuesResponse_try_def pushQueues_decoded)



subsection \<open>Counting pages\<close>

lemma ceil_div_more:
  assumes "0 < P" and "(k + 1) * P < N"
  shows "k + 1 < ceil_div N P"
proof -
  have "(k + 2) * P \<le> N + P - 1" using assms by (simp add: algebra_simps)
  then have "k + 2 \<le> (N + P - 1) div P"
    using assms(1) by (simp add: less_eq_div_iff_mult_less_eq)
  then show ?thesis by (simp add: ceil_div_def)
qed

lemma ceil_div_last:
  assumes "0 < P" and "N \<le> (k + 1) * P"
  shows "ceil_div N P \<le> k + 1"
proof -
  have "N + P - 1 < (k + 2) * P" using assms by (simp add: algebra_simps)
  then have "(N + P - 1) div P < k + 2"
    using assms(1) by (simp add: div_less_iff_less_mult)
  then show ?thesis by (simp add: ceil_div_def)
qed

lemma ceil_div_covers:
  assumes "0 < P"
  shows "N \<le> ceil_div N P * P"
proof -
  have "N + P - 1 < (ceil_div N P + 1) * P"
    unfolding ceil_div_def using assms
    by (metis Suc_eq_plus1 dividend_less_div_times mult.commute mult_Suc_right)
  then show ?thesis using assms by (simp add: algebra_simps)
qed

lemmas svc_eval = listQueues_def listResources_def getUrl_def queryParam_def pageRequestOptions_def
  buildListQueuesResponse_def buildListQueuesResponse_try_def getMarkerFromNextLinkUrl_def
  parse_next_link_def next_link_def decode_nonzero_def XML_METADATA_MARKER_def yield_first_def

subsection \<open>Scanning a collection served in order\<close>

lemma listQueues_request:
  "fst (listQueues this options) =
     \<lparr>resource = ''$Resources/Queues'', skip_query = queryParam (skip options),
      top_query = queryParam (maxCount options)\<rparr>"
  by (simp add: listQueues_def listResources_def getUrl_def Let_def split: sum.splits)

lemma first_request:
  "fst (listQueues this (pageRequestOptions marker options)) =
     \<lparr>resource = ''$Resources/Queues'', skip_query = queryParam (Some (Number marker)),
      top_query = queryParam (maxPageSize options)\<rparr>"
  by (simp add: listQueues_request pageRequestOptions_def)

lemma listQueues_served:
  assumes pos: "0 < P" and page: "serves_page this coll P maxc k"
    and nothrow: "\<forall>raw \<in> set coll. \<forall>e. buildQueue this raw \<noteq> Inl e"
    and marker: "queryParam (Some (Number marker)) = (if k = 0 then None else Some (Num (of_nat (k * P))))"
  shows "\<exists>page. listQueues this (pageRequestOptions marker \<lparr>maxPageSize = maxc\<rparr>) =
            (pageRequest maxc (k * P), Inr page)
          \<and> items page = decoded (buildQueue this) (take P (drop (k * P) coll))
          \<and> (if (k + 1) * P < length coll
              then truthy (continuationToken page)
                   \<and> Number (continuationToken page) = Num (of_nat ((k + 1) * P))
              else \<not> truthy (continuationToken page))"
proof -
  have req: "getUrl ''$Resources/Queues'' (queryParam (Some (Number marker))) (queryParam maxc)
               = pageRequest maxc (k * P)"
    using marker pos by (auto simp: getUrl_def pageRequest_def)
  from page obtain resp where
    sent: "executeAtomXmlOperation this (pageRequest maxc (k * P)) = Inr resp"
    by (cases "executeAtomXmlOperation this (pageRequest maxc (k * P))")
       (simp_all add: serves_page_def)
  with page obtain raws nextLink where
    body: "parsedBody resp = ArrayBody raws nextLink"
    by (cases "parsedBody resp") (simp_all add: serves_page_def)
  with page sent obtain mk where
    mk: "getMarkerFromNextLinkUrl this nextLink = Inr mk"
    by (cases "getMarkerFromNextLinkUrl this nextLink") (simp_all add: serves_page_def)
  from page sent body mk have raws: "raws = take P (drop (k * P) coll)"
    and tok: "if (k + 1) * P < length coll
              then truthy mk \<and> Number mk = Num (of_nat ((k + 1) * P)) else \<not> truthy mk"
    by (simp_all add: serves_page_def)
  have "set raws \<subseteq> set coll"
    unfolding raws by (meson set_take_subset set_drop_subset subset_trans)
  with nothrow have "\<forall>raw \<in> set raws. \<forall>e. buildQueue this raw \<noteq> Inl e" by blast
  from buildListQueuesResponse_array [OF body mk this]
  have "listQueues this (pageRequestOptions marker \<lparr>maxPageSize = maxc\<rparr>) =
          (pageRequest maxc (k * P),
           Inr \<lparr>items = decoded (buildQueue this) raws, continuationToken = mk, response = resp\<rparr>)"
    by (simp add: listQueues_def listResources_def pageRequestOptions_def req sent)
  with raws tok show ?thesis by auto
qed


text \<open>The pages a scan yields from page \<open>k\<close> on, for a collection served with page size \<open>P\<close>.\<close>

lemma scan_from_page:
  assumes srv: "serves this coll P maxc"
    and nothrow: "\<forall>raw \<in> set coll. \<forall>e. buildQueue this raw \<noteq> Inl e"
    and n: "n = max 1 (ceil_div (length coll) P)"
    and k: "k < n" "d = n - k"
    and marker: "queryParam (Some (Number marker)) = (if k = 0 then None else Some (Num (of_nat (k * P))))"
  shows "\<exists>r. listQueuesPage this marker \<lparr>maxPageSize = maxc\<rparr> = Some r
           \<and> thrown r = None
           \<and> requests r = map (\<lambda>j. pageRequest maxc (j * P)) [k ..< n]
           \<and> map items (yielded r) =
               map (\<lambda>j. decoded (buildQueue this) (take P (drop (j * P) coll))) [k ..< n]
           \<and> map (\<lambda>p. Number (continuationToken p)) (butlast (yielded r)) =
               map (\<lambda>j. Num (of_nat ((j + 1) * P))) [k ..< n - 1]
           \<and> \<not> truthy (continuationToken (last (yielded r)))"
  using k marker
proof (induction d arbitrary: k marker)
  case 0
  then show ?case by simp
next
  case (Suc d)
  from srv have pos: "0 < P" and pages: "\<And>j. j < n \<Longrightarrow> serves_page this coll P maxc j"
    by (auto simp: serves_def n list_all_iff)
  from listQueues_served [OF pos pages [OF Suc.prems(1)] nothrow Suc.prems(3)]
  obtain page where
    lq: "listQueues this (pageRequestOptions marker \<lparr>maxPageSize = maxc\<rparr>) =
            (pageRequest maxc (k * P), Inr page)"
    and its: "items page = decoded (buildQueue this) (take P (drop (k * P) coll))"
    and tok: "if (k + 1) * P < length coll
              then truthy (continuationToken page)
                   \<and> Number (continuationToken page) = Num (of_nat ((k + 1) * P))
              else \<not> truthy (continuationToken page)"
    by blast
  show ?case
  proof (cases "(k + 1) * P < length coll")
    case True
    with tok have tr: "truthy (continuationToken page)"
      and nm: "Number (continuationToken page) = Num (of_nat ((k + 1) * P))" by simp_all
    have k1: "k + 1 < n"
      using ceil_div_more [OF pos True] by (simp add: n)
    have "(k + 1) * P \<noteq> 0" using pos by simp
    then have "(of_nat ((k + 1) * P) :: rat) \<noteq> 0"
      by (simp only: of_nat_eq_0_iff not_False_eq_True)
    then have "queryParam (Some (Number (continuationToken page))) =
            (if k + 1 = 0 then None else Some (Num (of_nat ((k + 1) * P))))"
      unfolding nm queryParam_def by simp
    moreover have "d = n - (k + 1)" using Suc.prems(2) by simp
    ultimately obtain r where
      rest: "listQueuesPage this (continuationToken page) \<lparr>maxPageSize = maxc\<rparr> = Some r"
      and th: "thrown r = None"
      and rq: "requests r = map (\<lambda>j. pageRequest maxc (j * P)) [k + 1 ..< n]"
      and it: "map items (yielded r) =
               map (\<lambda>j. decoded (buildQueue this) (take P (drop (j * P) coll))) [k + 1 ..< n]"
      and tk: "map (\<lambda>p. Number (continuationToken p)) (butlast (yielded r)) =
               map (\<lambda>j. Num (of_nat ((j + 1) * P))) [k + 1 ..< n - 1]"
      and lst: "\<not> truthy (continuationToken (last (yielded r)))"
      using Suc.IH [OF k1] by blast
    have ne: "yielded r \<noteq> []"
      using it k1 by auto
    have run: "listQueuesPage this marker \<lparr>maxPageSize = maxc\<rparr> = Some (yield_first page (pageRequest maxc (k * P)) r)"
      by (subst listQueuesPage.simps) (simp add: lq tr rest)
    have upt: "[k ..< n] = k # [Suc k ..< n]" "[k ..< n - Suc 0] = k # [Suc k ..< n - Suc 0]"
      using k1 by (simp_all add: upt_conv_Cons)
    show ?thesis
      using th rq it tk lst ne its nm
      by (simp add: run yield_first_def upt)
  next
    case False
    with tok have tr: "\<not> truthy (continuationToken page)" by simp
    have "ceil_div (length coll) P \<le> k + 1"
      using ceil_div_last [OF pos] False by simp
    with Suc.prems(1) have nk: "n = k + 1"
      by (simp add: n)
    have run: "listQueuesPage this marker \<lparr>maxPageSize = maxc\<rparr> =
                 Some \<lparr>yielded = [page], thrown = None, requests = [pageRequest maxc (k * P)]\<rparr>"
      by (subst listQueuesPage.simps) (simp add: lq tr)
    show ?thesis
      using its tr by (simp add: run nk)
  qed
qed

lemma take_pages:
  "concat (map (\<lambda>j. take P (drop (j * P) xs)) [0 ..< n]) = take (n * P) xs"
proof (induction n)
  case 0
  then show ?case by simp
next
  case (Suc n)
  have "take (n * P + P) xs = take (n * P) xs @ take P (drop (n * P) xs)"
    by (simp add: take_add)
  with Suc show ?case by (simp add: add.commute)
qed

lemma decoded_concat:
  "decoded decode (concat xss) = concat (map (decoded decode) xss)"
  by (induction xss) (simp_all add: decoded_def)

lemma decoded_pages:
  assumes "length xs \<le> n * P"
  shows "concat (map (\<lambda>j. decoded decode (take P (drop (j * P) xs))) [0 ..< n]) = decoded decode xs"
proof -
  have "concat (map (\<lambda>j. decoded decode (take P (drop (j * P) xs))) [0 ..< n])
          = decoded decode (concat (map (\<lambda>j. take P (drop (j * P) xs)) [0 ..< n]))"
    by (simp add: decoded_concat comp_def)
  also have "\<dots> = decoded decode xs"
    using assms by (simp add: take_pages)
  finally show ?thesis .
qed

lemma last_page_ends_scan:
  assumes "listQueues this (pageRequestOptions marker options) = (sent, Inr page)"
    and "\<not> truthy (continuationToken page)"
  shows "listQueuesPage this marker options =
           Some \<lparr>yielded = [page], thrown = None, requests = [sent]\<rparr>"
  by (subst listQueuesPage.simps) (simp add: assms)

subsection \<open>A scan is determined by the responses to its requests\<close>




lemma yield_first_inject: "yield_first y s a = yield_first y s b \<longleftrightarrow> a = b"
  by (cases a; cases b) (simp add: yield_first_def)


lemma scan_starts_without_skip:
  assumes "listQueuesPage this Undefined options = Some r"
  shows "requests r \<noteq> [] \<and> skip_query (hd (requests r)) = None"
proof -
  obtain sent res where lq: "listQueues this (pageRequestOptions Undefined options) = (sent, res)"
    by (cases "listQueues this (pageRequestOptions Undefined options)")
  from first_request [of this Undefined options] lq
  have s: "skip_query sent = None" by (simp add: queryParam_def)
  from assms lq show ?thesis
    by (subst (asm) listQueuesPage.simps)
       (auto simp: s yield_first_def bind_eq_Some_conv split: sum.splits if_splits)
qed

subsection \<open>One request for each page\<close>

lemma one_request_per_page:
  assumes "listQueuesPage this marker options = Some r"
  shows "length (requests r) = length (yielded r) + (case thrown r of None \<Rightarrow> 0 | Some e \<Rightarrow> 1)"
  using assms
proof (induction rule: listQueuesPage.raw_induct)
  case (1 rec this marker options r)
  note IH = "1"(1) and body = "1"(2)
  obtain sent res where lq: "listQueues this (pageRequestOptions marker options) = (sent, res)"
    by (cases "listQueues this (pageRequestOptions marker options)")
  show ?case
  proof (cases res)
    case (Inl err)
    with body lq show ?thesis by auto
  next
    case (Inr page)
    show ?thesis
    proof (cases "truthy (continuationToken page)")
      case True
      with body lq Inr obtain rest where
        rest: "rec this (continuationToken page) options = Some rest"
        and r: "r = yield_first page sent rest"
        by (auto simp: bind_eq_Some_conv)
      from "1.prems" lq Inr True obtain rest' where
        "listQueuesPage this (continuationToken page) options = Some rest'"
        and "r = yield_first page sent rest'"
        by (subst (asm) listQueuesPage.simps) (auto simp: bind_eq_Some_conv)
      with r have "listQueuesPage this (continuationToken page) options = Some rest"
        by (simp add: yield_first_inject)
      from IH [OF rest this] r show ?thesis
        by (simp add: yield_first_def)
    next
      case False
      with body lq Inr show ?thesis by auto
    qed
  qed
qed (rule assms)

lemma first_request_of_scan:
  assumes "listQueuesPage this marker options = Some r"
  shows "requests r \<noteq> [] \<and> hd (requests r) = fst (listQueues this (pageRequestOptions marker options))"
  using assms
  by (subst (asm) listQueuesPage.simps)
     (auto simp: yield_first_def bind_eq_Some_conv split: prod.splits sum.splits if_splits)

subsection \<open>Iterators advanced step by step\<close>







lemma run_resume:
  "truthy marker \<Longrightarrow> run this (Suc n) (Yielding [] marker) = run this (Suc n) (Fetching marker)"
  by simp







subsection \<open>Iterators advanced in any order\<close>



lemma advance_absent:
  "frames w j = None \<Longrightarrow> advance this j w = (None, w)"
  by (simp add: advance_def)








subsection \<open>The example services\<close>


lemma no_queues_scan_from_7:
  "listQueuesPage no_queues (Str ''7'') \<lparr>maxPageSize = Some (Num 2)\<rparr> =
     Some \<lparr>yielded = [\<lparr>items = [], continuationToken = Undefined,
                       response = \<lparr>status = 200, parsedBody = ArrayBody [] None\<rparr>\<rparr>],
           thrown = None,
           requests = [\<lparr>resource = ''$Resources/Queues'', skip_query = Some (Num 7),
                        top_query = Some (Num 2)\<rparr>]\<rparr>"
  by (subst listQueuesPage.simps) (simp add: svc_eval no_queues_def Number_examples)


section \<open>Claims about the paged listing\<close>

subsection \<open>Validation of continuation tokens\<close>

text \<open>
  Claim C10. Continuation-token validation accepts exactly the tokens that are \<open>undefined\<close>
  or strings \<open>t\<close> with \<open>Number(t) >= 0\<close>. Besides plain non-negative integer strings, the
  empty string (which converts to 0), \<open>1.5\<close>, \<open>1e3\<close> and \<open>0x1F\<close> are accepted by \<open>byPage\<close>
  without error; a string is rejected exactly when its conversion is NaN or negative.
\<close>

theorem token_validation_by_numeric_conversion:
  "(throwIfInvalidContinuationToken tok = Inr ()
      \<longleftrightarrow> tok = Undefined \<or> (is_string tok \<and> ge_zero (Number tok)))
   \<and> (throwIfInvalidContinuationToken (Str t) = Inl (invalid_token_error t)
      \<longleftrightarrow> Number (Str t) = NaN \<or> negative (Number (Str t)))
   \<and> (throwIfInvalidContinuationToken (Str t) = Inr ()
      \<longleftrightarrow> \<not> (Number (Str t) = NaN \<or> negative (Number (Str t))))
   \<and> Number (Str []) = Num 0
   \<and> byPage \<lparr>ps_continuationToken = Str [], ps_maxPageSize = m\<rparr>
       = Inr (ListQueuesPage (Str []) \<lparr>maxPageSize = m\<rparr>)
   \<and> byPage \<lparr>ps_continuationToken = Str ''7'', ps_maxPageSize = m\<rparr>
       = Inr (ListQueuesPage (Str ''7'') \<lparr>maxPageSize = m\<rparr>)
   \<and> byPage \<lparr>ps_continuationToken = Str ''1.5'', ps_maxPageSize = m\<rparr>
       = Inr (ListQueuesPage (Str ''1.5'') \<lparr>maxPageSize = m\<rparr>)
   \<and> byPage \<lparr>ps_continuationToken = Str ''1e3'', ps_maxPageSize = m\<rparr>
       = Inr (ListQueuesPage (Str ''1e3'') \<lparr>maxPageSize = m\<rparr>)
   \<and> byPage \<lparr>ps_continuationToken = Str ''0x1F'', ps_maxPageSize = m\<rparr>
       = Inr (ListQueuesPage (Str ''0x1F'') \<lparr>maxPageSize = m\<rparr>)
   \<and> byPage \<lparr>ps_continuationToken = Undefined, ps_maxPageSize = m\<rparr>
       = Inr (ListQueuesPage Undefined \<lparr>maxPageSize = m\<rparr>)
   \<and> byPage \<lparr>ps_continuationToken = Str ''-1'', ps_maxPageSize = m\<rparr>
       = Inl (invalid_token_error ''-1'')
   \<and> byPage \<lparr>ps_continuationToken = Str ''abc'', ps_maxPageSize = m\<rparr>
       = Inl (invalid_token_error ''abc'')"
proof -
  have a: "throwIfInvalidContinuationToken tok = Inr ()
      \<longleftrightarrow> tok = Undefined \<or> (is_string tok \<and> ge_zero (Number tok))"
    by (simp add: throwIfInvalidContinuationToken_def)
  have b: "throwIfInvalidContinuationToken (Str t) = Inl (invalid_token_error t)
      \<longleftrightarrow> Number (Str t) = NaN \<or> negative (Number (Str t))"
    by (auto simp: throwIfInvalidContinuationToken_def invalid_token_error_def ge_zero_cases)
  have c: "throwIfInvalidContinuationToken (Str t) = Inr ()
      \<longleftrightarrow> \<not> (Number (Str t) = NaN \<or> negative (Number (Str t)))"
    by (auto simp: throwIfInvalidContinuationToken_def ge_zero_cases)
  show ?thesis
    by (simp add: a b c byPage_undefined byPage_accepts byPage_rejects Number_examples)
qed

theorem token_validation_witness:
  "throwIfInvalidContinuationToken (Str ''1e3'') = Inr ()
   \<and> throwIfInvalidContinuationToken (Str ''abc'') = Inl (Error ''Invalid continuationToken abc provided'')
   \<and> Number (Str ''abc'') = NaN \<and> Number (Str ''1e3'') = Num 1000"
  using token_validation_by_numeric_conversion [of "Str ''1e3''" "''abc''" None]
  by (simp add: Number_examples invalid_token_error_def)

text \<open>
  Claim C3, as stated, fails: the token \<open>1.5\<close> is not a non-negative integer string, yet
  \<open>byPage\<close> accepts it and returns the page generator.
\<close>

theorem byPage_accepts_non_integer_token:
  "\<not> nonNegativeIntegerString ''1.5''
   \<and> byPage \<lparr>ps_continuationToken = Str ''1.5'', ps_maxPageSize = None\<rparr>
       = Inr (ListQueuesPage (Str ''1.5'') \<lparr>maxPageSize = None\<rparr>)"
  by (simp add: nonNegativeIntegerString_def isRadixDigit_def digitValue_def
        byPage_accepts Number_examples)

text \<open>
  Claim C3, amended. For every caller-supplied token whose numeric conversion is NaN or
  negative (for example \<open>-1\<close> or \<open>abc\<close>), \<open>byPage\<close> throws the invalid-token error
  synchronously, before the generator exists, so that a caller who iterates the pages has
  issued no request; every token that is rejected is a string that is not a non-negative
  integer string; for an absent token no error is raised.
\<close>

theorem invalid_token_rejected_before_any_request:
  "(Number (Str t) = NaN \<or> negative (Number (Str t)) \<longrightarrow>
      byPage \<lparr>ps_continuationToken = Str t, ps_maxPageSize = m\<rparr> = Inl (invalid_token_error t)
      \<and> iterate_byPage this \<lparr>ps_continuationToken = Str t, ps_maxPageSize = m\<rparr>
          = Some \<lparr>yielded = [], thrown = Some (invalid_token_error t), requests = []\<rparr>)
   \<and> (byPage \<lparr>ps_continuationToken = Str t, ps_maxPageSize = m\<rparr> = Inl e \<longrightarrow>
      \<not> nonNegativeIntegerString t)
   \<and> byPage \<lparr>ps_continuationToken = Str ''-1'', ps_maxPageSize = m\<rparr>
       = Inl (invalid_token_error ''-1'')
   \<and> byPage \<lparr>ps_continuationToken = Str ''abc'', ps_maxPageSize = m\<rparr>
       = Inl (invalid_token_error ''abc'')
   \<and> byPage \<lparr>ps_continuationToken = Undefined, ps_maxPageSize = m\<rparr>
       = Inr (ListQueuesPage Undefined \<lparr>maxPageSize = m\<rparr>)"
proof -
  have rejected: "byPage \<lparr>ps_continuationToken = Str t, ps_maxPageSize = m\<rparr> = Inl (invalid_token_error t)"
    if "Number (Str t) = NaN \<or> negative (Number (Str t))"
    using that byPage_rejects [of t m] by (auto simp: ge_zero_cases)
  have integer_accepted: "\<not> nonNegativeIntegerString t"
    if "byPage \<lparr>ps_continuationToken = Str t, ps_maxPageSize = m\<rparr> = Inl e"
  proof
    assume "nonNegativeIntegerString t"
    then have "ge_zero (StringToNumber t)"
      by (simp add: StringToNumber_digits ge_zero_finite_number)
    from byPage_accepts [OF this, of m] that show False by simp
  qed
  show ?thesis
    using rejected integer_accepted
    by (auto simp: iterate_byPage_def byPage_undefined byPage_rejects Number_examples)
qed

theorem invalid_token_rejected_witness:
  "Number (Str ''-1'') = Num (- 1) \<and> negative (Number (Str ''-1''))
   \<and> iterate_byPage three_queues \<lparr>ps_continuationToken = Str ''-1'', ps_maxPageSize = None\<rparr>
       = Some \<lparr>yielded = [], thrown = Some (Error ''Invalid continuationToken -1 provided''),
               requests = []\<rparr>
   \<and> \<not> nonNegativeIntegerString ''-1''"
  using invalid_token_rejected_before_any_request
          [of "''-1''" None three_queues "invalid_token_error ''-1''"]
  by (simp add: Number_examples invalid_token_error_def)

subsection \<open>One page\<close>



text \<open>
  Claim C6, as stated, fails: for the marker \<open>1e3\<close>, which \<open>byPage\<close> accepts, the request
  carries skip 1000, the value of \<open>Number\<close>, where \<open>parseInt\<close> gives 1; and for an absent
  marker the skip passed on is NaN, not 0.
\<close>

theorem skip_is_Number_not_parseInt:
  "byPage \<lparr>ps_continuationToken = Str ''1e3'', ps_maxPageSize = None\<rparr>
     = Inr (ListQueuesPage (Str ''1e3'') \<lparr>maxPageSize = None\<rparr>)
   \<and> skip (pageRequestOptions (Str ''1e3'') \<lparr>maxPageSize = None\<rparr>) = Some (Num 1000)
   \<and> skip_query (fst (listQueues offline (pageRequestOptions (Str ''1e3'') \<lparr>maxPageSize = None\<rparr>)))
       = Some (Num 1000)
   \<and> spec_skip (Str ''1e3'') = Num 1
   \<and> skip (pageRequestOptions Undefined \<lparr>maxPageSize = None\<rparr>) = Some NaN
   \<and> spec_skip Undefined = Num 0"
proof -
  have "parseInt ''1e3'' = Num 1" "parseInt ''0'' = Num 0"
    by (simp_all add: js_eval)
  then show ?thesis
    by (simp add: byPage_accepts Number_examples pageRequestOptions_def listQueues_request
          queryParam_def spec_skip_def)
qed

text \<open>
  Claim C6, amended. For every marker value (including an absent marker), the list request
  of a page is issued with skip equal to \<open>Number(marker)\<close> and maxCount equal to the supplied
  page size, and it is the one request made for that page; the request carries \<open>$skip\<close>
  and \<open>$top\<close> only when the number is truthy, so an absent marker and the marker \<open>0\<close>
  both request the collection without \<open>$skip\<close>, from offset 0. For a marker that is a
  non-negative integer string, \<open>Number(marker)\<close> equals \<open>parseInt(marker)\<close>.
\<close>

theorem list_request_of_marker:
  "skip (pageRequestOptions marker options) = Some (Number marker)
   \<and> maxCount (pageRequestOptions marker options) = maxPageSize options
   \<and> fst (listQueues this (pageRequestOptions marker options)) =
       \<lparr>resource = ''$Resources/Queues'',
        skip_query = (if truthy_num (Number marker) then Some (Number marker) else None),
        top_query = (case maxPageSize options of
                       None \<Rightarrow> None
                     | Some n \<Rightarrow> if truthy_num n then Some n else None)\<rparr>
   \<and> (\<forall>r. listQueuesPage this marker options = Some r \<longrightarrow>
         requests r \<noteq> []
         \<and> hd (requests r) = fst (listQueues this (pageRequestOptions marker options))
         \<and> length (requests r) = length (yielded r) + (case thrown r of None \<Rightarrow> 0 | Some e \<Rightarrow> 1))
   \<and> skip_query (fst (listQueues this (pageRequestOptions Undefined options))) = None
   \<and> skip_query (fst (listQueues this (pageRequestOptions (Str ''0'') options))) = None
   \<and> (nonNegativeIntegerString t \<longrightarrow> Number (Str t) = spec_skip (Str t))"
proof -
  have "\<forall>r. listQueuesPage this marker options = Some r \<longrightarrow>
         requests r \<noteq> []
         \<and> hd (requests r) = fst (listQueues this (pageRequestOptions marker options))
         \<and> length (requests r) = length (yielded r) + (case thrown r of None \<Rightarrow> 0 | Some e \<Rightarrow> 1)"
    using first_request_of_scan one_request_per_page by blast
  then show ?thesis
    by (simp add: pageRequestOptions_def listQueues_request queryParam_def Number_examples
          spec_skip_def StringToNumber_digits parseInt_digits split: option.splits)
qed

theorem list_request_of_marker_witness:
  "nonNegativeIntegerString ''7''
   \<and> Number (Str ''7'') = Num 7 \<and> spec_skip (Str ''7'') = Num 7
   \<and> fst (listQueues no_queues (pageRequestOptions (Str ''7'') \<lparr>maxPageSize = Some (Num 2)\<rparr>)) =
       \<lparr>resource = ''$Resources/Queues'', skip_query = Some (Num 7), top_query = Some (Num 2)\<rparr>
   \<and> map_option requests (listQueuesPage no_queues (Str ''7'') \<lparr>maxPageSize = Some (Num 2)\<rparr>) =
       Some [\<lparr>resource = ''$Resources/Queues'', skip_query = Some (Num 7), top_query = Some (Num 2)\<rparr>]"
proof -
  have d: "nonNegativeIntegerString ''7''"
    by (simp add: nonNegativeIntegerString_def isRadixDigit_def digitValue_def)
  from list_request_of_marker [of "Str ''7''" "\<lparr>maxPageSize = Some (Num 2)\<rparr>" no_queues "''7''"] d
  show ?thesis by (simp add: Number_examples no_queues_scan_from_7)
qed

subsection \<open>The whole scan\<close>

text \<open>
  Claim C4, as stated, fails for an empty collection: the scan of no queues issues one
  request, where the ceiling of 0 / 1 is 0.
\<close>

theorem empty_collection_takes_one_fetch:
  "serves no_queues [] 1 None
   \<and> map_option (\<lambda>r. (yielded r, thrown r, length (requests r))) (listQueuesAll no_queues)
       = Some ([], None, 1)
   \<and> ceil_div 0 1 = 0"
proof -
  have "listQueuesPage no_queues Undefined \<lparr>maxPageSize = None\<rparr> =
          Some \<lparr>yielded = [\<lparr>items = [], continuationToken = Undefined,
                            response = \<lparr>status = 200, parsedBody = ArrayBody [] None\<rparr>\<rparr>],
                thrown = None,
                requests = [\<lparr>resource = ''$Resources/Queues'', skip_query = None, top_query = None\<rparr>]\<rparr>"
    by (subst listQueuesPage.simps) (simp add: svc_eval no_queues_def)
  then show ?thesis
    by (simp add: listQueuesAll_def serves_def serves_page_def ceil_div_def pageRequest_def
          no_queues_def svc_eval)
qed

text \<open>
  Claim C4, amended. For every remote collection of N items served with page size P whose
  records all decode, iterating \<open>listQueuesAll\<close> yields exactly the N items, in order and
  without error, through max(1, ceil(N / P)) page fetches (one fetch for an empty
  collection), the first without \<open>$skip\<close> and the others at the offsets P, 2P, ...; the
  scan ends at the page whose continuation token is absent, and an empty first page with
  an absent token ends it with no item and no error.
\<close>

theorem listAll_yields_every_item:
  assumes "serves this coll P None"
    and "\<forall>raw \<in> set coll. buildQueue this raw = Inr (Some (f raw))"
  shows "listQueuesAll this =
           Some \<lparr>yielded = map f coll, thrown = None,
                 requests = map (\<lambda>j. pageRequest None (j * P))
                              [0 ..< max 1 (ceil_div (length coll) P)]\<rparr>
         \<and> length (map f coll) = length coll
         \<and> length (map (\<lambda>j. pageRequest None (j * P)) [0 ..< max 1 (ceil_div (length coll) P)])
             = max 1 (ceil_div (length coll) P)
         \<and> (\<exists>pages. listQueuesPage this Undefined \<lparr>maxPageSize = None\<rparr> = Some pages
               \<and> \<not> truthy (continuationToken (last (yielded pages))))
         \<and> (\<forall>sent page. listQueues this (pageRequestOptions Undefined \<lparr>maxPageSize = None\<rparr>)
                            = (sent, Inr page)
                 \<and> items page = [] \<and> \<not> truthy (continuationToken page)
               \<longrightarrow> listQueuesAll this = Some \<lparr>yielded = [], thrown = None, requests = [sent]\<rparr>)"
proof -
  define n where "n = max 1 (ceil_div (length coll) P)"
  from assms(1) have pos: "0 < P" by (simp add: serves_def)
  have nothrow: "\<forall>raw \<in> set coll. \<forall>e. buildQueue this raw \<noteq> Inl e"
    using assms(2) by auto
  have start: "queryParam (Some (Number Undefined)) = (if (0::nat) = 0 then None else Some (Num (of_nat (0 * P))))"
    by (simp add: queryParam_def)
  have "0 < n" by (simp add: n_def)
  from scan_from_page [OF assms(1) nothrow n_def this refl start]
  obtain r where run: "listQueuesPage this Undefined \<lparr>maxPageSize = None\<rparr> = Some r"
    and th: "thrown r = None"
    and rq: "requests r = map (\<lambda>j. pageRequest None (j * P)) [0 ..< n]"
    and it: "map items (yielded r) =
               map (\<lambda>j. decoded (buildQueue this) (take P (drop (j * P) coll))) [0 ..< n]"
    and lst: "\<not> truthy (continuationToken (last (yielded r)))"
    by blast
  have "length coll \<le> ceil_div (length coll) P * P"
    by (rule ceil_div_covers [OF pos])
  also have "\<dots> \<le> n * P" by (simp add: n_def)
  finally have cover: "length coll \<le> n * P" .
  have "concat (map items (yielded r)) = decoded (buildQueue this) coll"
    unfolding it by (rule decoded_pages [OF cover])
  also have "\<dots> = map f coll"
    by (rule decoded_all [OF assms(2)])
  finally have all: "concat (map items (yielded r)) = map f coll" .
  have main: "listQueuesAll this =
           Some \<lparr>yielded = map f coll, thrown = None,
                 requests = map (\<lambda>j. pageRequest None (j * P)) [0 ..< n]\<rparr>"
    by (simp add: listQueuesAll_def run th rq all)
  have empty: "listQueuesAll this = Some \<lparr>yielded = [], thrown = None, requests = [sent]\<rparr>"
    if "listQueues this (pageRequestOptions Undefined \<lparr>maxPageSize = None\<rparr>) = (sent, Inr page)"
      and "items page = []" and "\<not> truthy (continuationToken page)" for sent page
    using last_page_ends_scan [OF that(1) that(3)] that(2) by (simp add: listQueuesAll_def)
  show ?thesis
    using main run lst empty unfolding n_def by auto
qed

theorem listAll_three_queues_witness:
  "serves three_queues [1, 2, 3] 2 None
   \<and> listQueuesAll three_queues =
       Some \<lparr>yielded = [1, 2, 3], thrown = None,
             requests = [\<lparr>resource = ''$Resources/Queues'', skip_query = None, top_query = None\<rparr>,
                         \<lparr>resource = ''$Resources/Queues'', skip_query = Some (Num 2), top_query = None\<rparr>]\<rparr>
   \<and> max 1 (ceil_div 3 2) = (2::nat)"
proof -
  have s: "serves three_queues [1, 2, 3] 2 None"
    by (simp add: serves_def serves_page_def ceil_div_def pageRequest_def three_queues_def
          svc_eval js_eval upt_rec)
  have d: "\<forall>raw \<in> set [1, 2, 3]. buildQueue three_queues raw = Inr (Some ((\<lambda>x. x) raw))"
    by (simp add: three_queues_def decode_nonzero_def)
  from listAll_yields_every_item [OF s d] s show ?thesis
    by (simp add: ceil_div_def pageRequest_def queryParam_def upt_rec)
qed



text \<open>
  Claim C8, as stated, fails: the client passes on the tokens of the service's next links
  unchecked. Against a service whose next links carry skip 5 and then skip 3, one scan
  returns the tokens 5 and 3 to the caller, and 3 is not greater than 5.
\<close>

theorem tokens_can_decrease:
  "map_option (\<lambda>r. map continuationToken (yielded r))
     (listQueuesPage regressing Undefined \<lparr>maxPageSize = None\<rparr>) = Some [Str ''5'', Str ''3'', Undefined]
   \<and> Number (Str ''5'') = Num 5 \<and> Number (Str ''3'') = Num 3 \<and> \<not> (5 :: rat) < 3"
proof -
  have "map_option (\<lambda>r. map continuationToken (yielded r))
     (listQueuesPage regressing Undefined \<lparr>maxPageSize = None\<rparr>) = Some [Str ''5'', Str ''3'', Undefined]"
    apply (subst listQueuesPage.simps)
    apply (simp add: svc_eval regressing_def js_eval)
    apply (subst listQueuesPage.simps)
    apply (simp add: svc_eval regressing_def js_eval)
    apply (subst listQueuesPage.simps)
    apply (simp add: svc_eval regressing_def js_eval)
    done
  then show ?thesis by (simp add: Number_examples)
qed

text \<open>
  Claim C8, amended. Within a single scan of a collection that is served in order with page
  size P (each next link carrying the next offset), the continuation tokens returned to the
  caller convert to P, 2P, 3P, ...: every pair of consecutive tokens consists of strictly
  increasing non-negative integers, and the last page carries no token.
\<close>

theorem tokens_increase_when_served_in_order:
  assumes "serves this coll P maxc"
    and "\<forall>raw \<in> set coll. \<forall>e. buildQueue this raw \<noteq> Inl e"
  shows "\<exists>r. listQueuesPage this Undefined \<lparr>maxPageSize = maxc\<rparr> = Some r
           \<and> length (yielded r) = max 1 (ceil_div (length coll) P)
           \<and> (\<forall>i. Suc i < length (yielded r) \<longrightarrow>
                 Number (continuationToken (yielded r ! i)) = Num (of_nat (Suc i * P)))
           \<and> (\<forall>i. Suc (Suc i) < length (yielded r) \<longrightarrow>
                 (\<exists>a b. Number (continuationToken (yielded r ! i)) = Num (of_nat a)
                      \<and> Number (continuationToken (yielded r ! Suc i)) = Num (of_nat b)
                      \<and> a < b))
           \<and> \<not> truthy (continuationToken (last (yielded r)))"
proof -
  define n where "n = max 1 (ceil_div (length coll) P)"
  from assms(1) have pos: "0 < P" by (simp add: serves_def)
  have start: "queryParam (Some (Number Undefined)) = (if (0::nat) = 0 then None else Some (Num (of_nat (0 * P))))"
    by (simp add: queryParam_def)
  have "0 < n" by (simp add: n_def)
  from scan_from_page [OF assms n_def this refl start]
  obtain r where run: "listQueuesPage this Undefined \<lparr>maxPageSize = maxc\<rparr> = Some r"
    and it: "map items (yielded r) =
               map (\<lambda>j. decoded (buildQueue this) (take P (drop (j * P) coll))) [0 ..< n]"
    and tk: "map (\<lambda>p. Number (continuationToken p)) (butlast (yielded r)) =
               map (\<lambda>j. Num (of_nat ((j + 1) * P))) [0 ..< n - 1]"
    and lst: "\<not> truthy (continuationToken (last (yielded r)))"
    by blast
  have pages: "length (yielded r) = n"
    using arg_cong [OF it, of length] by simp
  then have len: "length (yielded r) - 1 = n - 1"
    by simp
  have tok: "Number (continuationToken (yielded r ! i)) = Num (of_nat (Suc i * P))"
    if "Suc i < length (yielded r)" for i
  proof -
    from that len have i: "i < n - 1" "i < length (butlast (yielded r))" by simp_all
    have "Number (continuationToken (butlast (yielded r) ! i)) =
            map (\<lambda>p. Number (continuationToken p)) (butlast (yielded r)) ! i"
      using i(2) by simp
    also have "\<dots> = Num (of_nat ((i + 1) * P))"
      unfolding tk using i(1) by simp
    finally show ?thesis
      using i(2) by (simp add: nth_butlast)
  qed
  have inc: "\<exists>a b. Number (continuationToken (yielded r ! i)) = Num (of_nat a)
                \<and> Number (continuationToken (yielded r ! Suc i)) = Num (of_nat b) \<and> a < b"
    if "Suc (Suc i) < length (yielded r)" for i
  proof (intro exI conjI)
    show "Number (continuationToken (yielded r ! i)) = Num (of_nat (Suc i * P))"
      using that by (intro tok) simp
    show "Number (continuationToken (yielded r ! Suc i)) = Num (of_nat (Suc (Suc i) * P))"
      using that by (intro tok)
    show "Suc i * P < Suc (Suc i) * P"
      using pos by simp
  qed
  from run pages tok inc lst show ?thesis unfolding n_def by blast
qed

theorem tokens_increase_witness:
  "serves five_queues [1, 2, 3, 4, 5] 2 None
   \<and> (\<exists>r. listQueuesPage five_queues Undefined \<lparr>maxPageSize = None\<rparr> = Some r
         \<and> length (yielded r) = 3
         \<and> Number (continuationToken (yielded r ! 0)) = Num 2
         \<and> Number (continuationToken (yielded r ! 1)) = Num 4
         \<and> (\<exists>a b. Number (continuationToken (yielded r ! 0)) = Num (of_nat a)
                  \<and> Number (continuationToken (yielded r ! Suc 0)) = Num (of_nat b) \<and> a < b)
         \<and> \<not> truthy (continuationToken (last (yielded r))))"
proof -
  have s: "serves five_queues [1, 2, 3, 4, 5] 2 None"
    by (simp add: serves_def serves_page_def ceil_div_def pageRequest_def five_queues_def
          svc_eval js_eval upt_rec)
  have d: "\<forall>raw \<in> set [1, 2, 3, 4, 5]. \<forall>e. buildQueue five_queues raw \<noteq> Inl e"
    by (simp add: five_queues_def decode_nonzero_def)
  have n: "max 1 (ceil_div (length [1, 2, 3, 4, 5 :: nat]) 2) = 3"
    by (simp add: ceil_div_def)
  from tokens_increase_when_served_in_order [OF s d] obtain r where
    run: "listQueuesPage five_queues Undefined \<lparr>maxPageSize = None\<rparr> = Some r"
    and len: "length (yielded r) = 3"
    and tok: "\<forall>i. Suc i < length (yielded r) \<longrightarrow>
                 Number (continuationToken (yielded r ! i)) = Num (of_nat (Suc i * 2))"
    and inc: "\<forall>i. Suc (Suc i) < length (yielded r) \<longrightarrow>
                 (\<exists>a b. Number (continuationToken (yielded r ! i)) = Num (of_nat a)
                      \<and> Number (continuationToken (yielded r ! Suc i)) = Num (of_nat b)
                      \<and> a < b)"
    and lst: "\<not> truthy (continuationToken (last (yielded r)))"
    unfolding n by blast
  from tok len have "Number (continuationToken (yielded r ! 0)) = Num 2"
    and "Number (continuationToken (yielded r ! 1)) = Num 4"
    by simp_all
  moreover from inc len have "\<exists>a b. Number (continuationToken (yielded r ! 0)) = Num (of_nat a)
                  \<and> Number (continuationToken (yielded r ! Suc 0)) = Num (of_nat b) \<and> a < b"
    by simp
  ultimately show ?thesis
    using s run len lst by blast
qed

section \<open>Claims about settlement\<close>

lemmas settle_eval = settle_def forward_def guard_blocks_def complete_def abandon_def
  defer_message_def deadLetter_def renewLock_def link_severed_message_def Let_def

lemmas test_eval = testComplete_def testAbandon_def testDefer_def testDeadletter_def
  testRenewLock_def dispositionAssertions_def expected_error_message_def renewLockCatch_def
  renewLockFinal_def session_lock_message_def quote_def

lemma blocked_settle:
  "guard_blocks v msg \<Longrightarrow>
   fst (settle v reply msg) = Rejected LinkSevered (link_severed_message v)
   \<and> dispatched (snd (settle v reply msg)) = dispatched msg"
  by (simp add: settle_def)

lemma unblocked_settle: "\<not> guard_blocks v msg \<Longrightarrow> settle v reply msg = forward v reply msg"
  by (simp add: settle_def)

lemma disposition_test_passes:
  "dispositionAssertions expected notThrown thrownMsg withSessions called = Passed \<longleftrightarrow>
     (if withSessions then (\<exists>k. called = Rejected k expected) else called = Resolved ())"
  by (cases called) (auto simp: dispositionAssertions_def)

lemma assertion_message_differs:
  "''MessageLock did not get renewed!: expected false to equal true'' \<noteq> session_lock_message"
  by (simp add: session_lock_message_def quote_def)

lemma renewLock_test_passes_without_sessions:
  "testRenewLock False before renewed completed = Passed \<longleftrightarrow>
     (\<exists>after. renewed = Resolved after \<and> before < after) \<and> completed = Resolved ()"
  by (cases renewed; cases completed)
     (auto simp: testRenewLock_def renewLockCatch_def renewLockFinal_def assertion_message_differs)

lemma renewLock_test_passes_with_sessions:
  "testRenewLock True before renewed completed = Passed \<longleftrightarrow>
     (\<exists>k. renewed = Rejected k session_lock_message)
     \<or> ((\<exists>after. renewed = Resolved after \<and> before < after)
        \<and> (\<exists>k. completed = Rejected k session_lock_message))"
  by (cases renewed; cases completed)
     (auto simp: testRenewLock_def renewLockCatch_def renewLockFinal_def assertion_message_differs)

lemma session_lock_message_differs:
  "expected_error_message Complete \<noteq> session_lock_message"
  by (simp add: expected_error_message_def session_lock_message_def quote_def)

text \<open>
  Claim C1. For every session-bound received message whose receive link is closed at
  disposition time, each of \<open>complete\<close>, \<open>abandon\<close>, \<open>defer\<close> and \<open>deadLetter\<close> rejects with
  the error whose message is \<open>Failed to <verb> the message as the AMQP link with which the
  message was received is no longer alive.\<close> with the verb of the call, without a call to
  the transport, and \<open>renewLock\<close> on the same message rejects too. The assertions of the
  repository's tests accept these rejections for an entity with sessions, and a
  \<open>renewLock\<close> that passes its test together with the test of \<open>complete\<close> is a rejected one.
\<close>

theorem session_message_rejected_after_link_closed:
  assumes "usesSessions msg" and "\<not> linkOpen msg"
  shows "fst (complete reply msg) = Rejected LinkSevered
           ''Failed to complete the message as the AMQP link with which the message was received is no longer alive.''
       \<and> fst (abandon reply msg) = Rejected LinkSevered
           ''Failed to abandon the message as the AMQP link with which the message was received is no longer alive.''
       \<and> fst (defer_message reply msg) = Rejected LinkSevered
           ''Failed to defer the message as the AMQP link with which the message was received is no longer alive.''
       \<and> fst (deadLetter reply msg) = Rejected LinkSevered
           (''Failed to '' @ DispositionType DeadLetter @
            '' the message as the AMQP link with which the message was received is no longer alive.'')
       \<and> (\<exists>m. fst (renewLock reply msg) = Rejected LinkSevered m)
       \<and> (\<forall>v. dispatched (snd (settle v reply msg)) = dispatched msg)
       \<and> dispatched (snd (renewLock reply msg)) = dispatched msg
       \<and> testComplete True (fst (complete reply msg)) = Passed
       \<and> testAbandon True (fst (abandon reply msg)) = Passed
       \<and> testDefer True (fst (defer_message reply msg)) = Passed
       \<and> testDeadletter True (fst (deadLetter reply msg)) = Passed
       \<and> (\<forall>before renewed completed.
             testComplete True completed = Passed
             \<and> testRenewLock True before renewed completed = Passed
             \<longrightarrow> (\<exists>k m. renewed = Rejected k m))"
proof -
  have g: "guard_blocks v msg" for v
    using assms by (simp add: guard_blocks_def)
  have s: "settle v reply msg = (Rejected LinkSevered (link_severed_message v), msg\<lparr>state := Severed\<rparr>)" for v
    using g [of v] assms(1) by (simp add: settle_def)
  have t: "\<exists>k m. renewed = Rejected k m"
    if "testComplete True completed = Passed"
      and "testRenewLock True before renewed completed = Passed" for before renewed completed
  proof -
    from that(1) obtain k where "completed = Rejected k (expected_error_message Complete)"
      by (auto simp: testComplete_def disposition_test_passes)
    with that(2) session_lock_message_differs show ?thesis
      by (auto simp: renewLock_test_passes_with_sessions)
  qed
  have outcomes: "fst (complete reply msg) = Rejected LinkSevered
           ''Failed to complete the message as the AMQP link with which the message was received is no longer alive.''
       \<and> fst (abandon reply msg) = Rejected LinkSevered
           ''Failed to abandon the message as the AMQP link with which the message was received is no longer alive.''
       \<and> fst (defer_message reply msg) = Rejected LinkSevered
           ''Failed to defer the message as the AMQP link with which the message was received is no longer alive.''
       \<and> fst (deadLetter reply msg) = Rejected LinkSevered
           (''Failed to '' @ DispositionType DeadLetter @
            '' the message as the AMQP link with which the message was received is no longer alive.'')
       \<and> (\<exists>m. fst (renewLock reply msg) = Rejected LinkSevered m)
       \<and> (\<forall>v. dispatched (snd (settle v reply msg)) = dispatched msg)
       \<and> dispatched (snd (renewLock reply msg)) = dispatched msg"
    by (simp add: s complete_def abandon_def defer_message_def deadLetter_def renewLock_def
          link_severed_message_def)
  have tests: "testComplete True (fst (complete reply msg)) = Passed
       \<and> testAbandon True (fst (abandon reply msg)) = Passed
       \<and> testDefer True (fst (defer_message reply msg)) = Passed
       \<and> testDeadletter True (fst (deadLetter reply msg)) = Passed"
    by (simp add: s complete_def abandon_def defer_message_def deadLetter_def
          link_severed_message_def testComplete_def testAbandon_def testDefer_def
          testDeadletter_def disposition_test_passes expected_error_message_def)
  from outcomes tests t show ?thesis by blast
qed

theorem session_message_rejected_witness:
  "usesSessions session_message \<and> \<not> linkOpen session_message
   \<and> complete (Confirmed 200) session_message =
       (Rejected LinkSevered
          ''Failed to complete the message as the AMQP link with which the message was received is no longer alive.'',
        session_message\<lparr>state := Severed\<rparr>)
   \<and> (\<exists>m. fst (renewLock (Confirmed 200) session_message) = Rejected LinkSevered m)"
proof -
  have a: "usesSessions session_message" and b: "\<not> linkOpen session_message"
    by (simp_all add: session_message_def)
  from session_message_rejected_after_link_closed [OF a b, of "Confirmed 200"] a b
  show ?thesis
    by (simp add: settle_eval)
qed

text \<open>
  The guard of the specification blocks \<open>renewLock\<close> on a closed link also without
  sessions. The repository's test of \<open>renewLock\<close> expects otherwise of the methods it
  runs: for an entity without sessions it passes exactly when the lock was renewed and the
  message completed, so the rejection by the modelled guard does not pass it.
\<close>

lemma modelled_renewLock_against_repository_test:
  "fst (renewLock (Confirmed 200) plain_message)
     = Rejected LinkSevered
         ''Failed to renewLock the message as the AMQP link with which the message was received is no longer alive.''
   \<and> testRenewLock False 100 (fst (renewLock (Confirmed 200) plain_message))
        (fst (complete (Confirmed 200) plain_message)) = Failed ''Unexpected error thrown''
   \<and> testRenewLock False 100 (Resolved 200) (Resolved ()) = Passed"
  by (simp add: settle_eval test_eval plain_message_def)




text \<open>
  Claim C9, as stated, fails: the first \<open>complete\<close> does not succeed for every received
  message, and re-settling does not always give the already-settled failure. For a
  session-bound message whose link is closed the guard rejects the first call with the
  link-severed error, and it rejects the call on such a message that is already settled
  with that same error before the transport is asked.
\<close>

theorem blocked_complete_is_link_severed:
  "state session_message = Locked
   \<and> fst (complete (Confirmed 200) session_message)
       = Rejected LinkSevered
           ''Failed to complete the message as the AMQP link with which the message was received is no longer alive.''
   \<and> state (session_message\<lparr>state := Settled\<rparr>) = Settled
   \<and> fst (complete (Confirmed 200) (session_message\<lparr>state := Settled\<rparr>))
       = Rejected LinkSevered
           ''Failed to complete the message as the AMQP link with which the message was received is no longer alive.''"
  by (simp add: settle_eval session_message_def)

text \<open>
  Claim C9, amended. For every received message in the state \<open>Locked\<close> whose call the guard lets
  through and the transport confirms, calling \<open>complete\<close> twice yields success on the
  first call and the already-settled failure on the second, whatever the transport would
  answer then; re-settling an already settled message with any disposition verb that the
  guard lets through maps to that same error kind.
\<close>

theorem second_complete_already_settled:
  assumes "state msg = Locked" and "\<not> guard_blocks Complete msg"
  shows "fst (complete (Confirmed t) msg) = Resolved ()
       \<and> state (snd (complete (Confirmed t) msg)) = Settled
       \<and> (\<exists>m. fst (complete reply (snd (complete (Confirmed t) msg))) = Rejected AlreadySettled m)
       \<and> state (snd (complete reply (snd (complete (Confirmed t) msg)))) = Settled
       \<and> (\<forall>v other. v \<noteq> RenewLock \<and> state other = Settled \<and> \<not> guard_blocks v other
            \<longrightarrow> (\<exists>m. fst (settle v reply other) = Rejected AlreadySettled m))"
proof -
  let ?once = "snd (complete (Confirmed t) msg)"
  have first: "complete (Confirmed t) msg =
                 (Resolved (), msg\<lparr>dispatched := dispatched msg @ [Complete], state := Settled\<rparr>)"
    using assms by (simp add: complete_def settle_def forward_def Let_def)
  have again: "\<not> guard_blocks Complete ?once"
    using assms(2) by (simp add: first guard_blocks_def)
  have settled: "\<exists>m. fst (settle v reply other) = Rejected AlreadySettled m"
    if "v \<noteq> RenewLock" "state other = Settled" "\<not> guard_blocks v other" for v other
    using that by (simp add: settle_def forward_def Let_def)
  have "state ?once = Settled" by (simp add: first)
  with again have "fst (complete reply ?once) = Rejected AlreadySettled ''already settled''"
    and "state (snd (complete reply ?once)) = Settled"
    by (simp_all add: complete_def settle_def forward_def Let_def)
  with first settled show ?thesis by auto
qed

theorem second_complete_witness:
  "state (plain_message\<lparr>linkOpen := True\<rparr>) = Locked
   \<and> \<not> guard_blocks Complete (plain_message\<lparr>linkOpen := True\<rparr>)
   \<and> fst (complete (Confirmed 200) (plain_message\<lparr>linkOpen := True\<rparr>)) = Resolved ()
   \<and> fst (complete (Confirmed 200)
            (snd (complete (Confirmed 200) (plain_message\<lparr>linkOpen := True\<rparr>))))
       = Rejected AlreadySettled ''already settled''"
proof -
  have a: "state (plain_message\<lparr>linkOpen := True\<rparr>) = Locked"
    and b: "\<not> guard_blocks Complete (plain_message\<lparr>linkOpen := True\<rparr>)"
    by (simp_all add: plain_message_def guard_blocks_def)
  from second_complete_already_settled [OF a b, of 200 "Confirmed 200"] a b
  show ?thesis
    by (simp add: complete_def settle_def forward_def Let_def plain_message_def guard_blocks_def)
qed

end
